theory Spec2Isabelle
  imports Main "HOL-Library.Word" "HOL-Library.Log_Nat"
begin

section \<open>Python values\<close>

text \<open>
  The exceptions that the modelled part of \<^verbatim>\<open>export.py\<close> can raise. A function that can
  raise returns \<open>py_error + 'a\<close>, with \<open>Inl\<close> for the exception.
\<close>

datatype py_error = TypeError | ValueError | KeyError | IndexError | OSError

type_synonym uint8 = "8 word"
type_synonym uint16 = "16 word"

subsection \<open>Double precision\<close>

text \<open>
  A finite double is modelled by the rational number it denotes. \<open>fl64\<close> rounds a
  rational to the nearest number with a 53-bit significand, ties to even, which is what an
  IEEE 754 division, subtraction or conversion returns. Overflow and subnormal numbers are
  left out: the quotients of the normalisation lie between \<open>2\<^sup>-\<^sup>2\<^sup>4\<close> and \<open>2\<^sup>2\<^sup>4\<close>.
\<close>

definition ilog2 :: "rat \<Rightarrow> int" where
  "ilog2 x = (if 1 \<le> x then bitlen \<lfloor>x\<rfloor> - 1 else - bitlen (\<lceil>1 / x\<rceil> - 1))"

definition round_half_even :: "rat \<Rightarrow> int" where
  "round_half_even y =
     (let f = \<lfloor>y\<rfloor>; r = y - of_int f
      in if r < 1 / 2 then f else if 1 / 2 < r then f + 1 else if even f then f else f + 1)"

definition fl64 :: "rat \<Rightarrow> rat" where
  "fl64 x =
     (if x = 0 then 0
      else let e = ilog2 \<bar>x\<bar>; u = 2 powi (e - 52)
           in sgn x * of_int (round_half_even (\<bar>x\<bar> / u)) * u)"

datatype float64 = Finite rat | PInf | NInf | NaN

text \<open>The quotient of two finite doubles; numpy warns on a zero divisor and does not raise.\<close>

definition float_div :: "rat \<Rightarrow> rat \<Rightarrow> float64" where
  "float_div a b =
     (if b = 0 then (if a = 0 then NaN else if 0 < a then PInf else NInf)
      else Finite (fl64 (a / b)))"

definition float_of_word :: "'a::len word \<Rightarrow> rat" where
  "float_of_word v = fl64 (of_nat (unat v))"

text \<open>\<^verbatim>\<open>int(x)\<close> on a float: truncation towards zero.\<close>

definition trunc :: "rat \<Rightarrow> int" where
  "trunc q = (if 0 \<le> q then \<lfloor>q\<rfloor> else \<lceil>q\<rceil>)"

subsection \<open>Numbers that are an int or a float\<close>

text \<open>
  The bounds of a ROI are Python numbers. The arithmetic of lines 28 to 33 is the one
  Python performs: an operation with a float operand gives a float. Infinities and
  not-a-number are not among the floats here, so \<^verbatim>\<open>int(x)\<close> does not raise.
\<close>

datatype pynum = PyInt int | PyFloat rat

fun is_float :: "pynum \<Rightarrow> bool" where
  "is_float (PyInt _) = False"
| "is_float (PyFloat _) = True"

fun py_sub :: "pynum \<Rightarrow> pynum \<Rightarrow> pynum" where
  "py_sub (PyInt a) (PyInt b) = PyInt (a - b)"
| "py_sub (PyInt a) (PyFloat b) = PyFloat (fl64 (fl64 (of_int a) - b))"
| "py_sub (PyFloat a) (PyInt b) = PyFloat (fl64 (a - fl64 (of_int b)))"
| "py_sub (PyFloat a) (PyFloat b) = PyFloat (fl64 (a - b))"

fun py_add :: "pynum \<Rightarrow> pynum \<Rightarrow> pynum" where
  "py_add (PyInt a) (PyInt b) = PyInt (a + b)"
| "py_add (PyInt a) (PyFloat b) = PyFloat (fl64 (fl64 (of_int a) + b))"
| "py_add (PyFloat a) (PyInt b) = PyFloat (fl64 (a + fl64 (of_int b)))"
| "py_add (PyFloat a) (PyFloat b) = PyFloat (fl64 (a + b))"

fun py_abs :: "pynum \<Rightarrow> pynum" where
  "py_abs (PyInt a) = PyInt \<bar>a\<bar>"
| "py_abs (PyFloat a) = PyFloat \<bar>a\<bar>"

fun py_int :: "pynum \<Rightarrow> int" where
  "py_int (PyInt a) = a"
| "py_int (PyFloat a) = trunc a"

text \<open>\<^verbatim>\<open>range(n)\<close> as a list.\<close>

definition py_range :: "int \<Rightarrow> int list" where
  "py_range n = map int [0..<nat n]"

section \<open>Arrays\<close>

text \<open>
  A numpy array is its shape and its elements in C order (last index fastest), which is
  the order of \<^verbatim>\<open>tobytes()\<close>.
\<close>

record 'a ndarray =
  nd_shape :: "nat list"
  nd_data :: "'a list"

definition wf_ndarray :: "'a ndarray \<Rightarrow> bool" where
  "wf_ndarray a = (length (nd_data a) = prod_list (nd_shape a))"

text \<open>
  The pixel array of one plane (\<^verbatim>\<open>mdimg.image\<close>) is two-dimensional; pixel \<open>(y, x)\<close> is
  at \<open>y * ncols + x\<close>.
\<close>

record 'a array2 =
  nrows :: nat
  ncols :: nat
  pixels :: "'a list"

definition wf_array2 :: "'a array2 \<Rightarrow> bool" where
  "wf_array2 p = (length (pixels p) = nrows p * ncols p)"

text \<open>
  \<^verbatim>\<open>np.empty(shape=...)\<close>: a float in the shape is a TypeError, a negative entry a
  ValueError. The cells are not initialised; the model fills them with a value of the
  runtime.
\<close>

definition np_empty :: "'a \<Rightarrow> pynum list \<Rightarrow> py_error + 'a ndarray" where
  "np_empty junk dims =
     (if list_ex is_float dims then Inl TypeError
      else if list_ex (\<lambda>d. py_int d < 0) dims then Inl ValueError
      else Inr \<lparr>nd_shape = map (\<lambda>d. nat (py_int d)) dims,
                nd_data = replicate (prod_list (map (\<lambda>d. nat (py_int d)) dims)) junk\<rparr>)"

text \<open>A bound of a slice \<^verbatim>\<open>a[start:stop]\<close> on an axis of length \<open>n\<close>.\<close>

definition slice_bound :: "int \<Rightarrow> nat \<Rightarrow> nat" where
  "slice_bound i n = (if i < 0 then nat (max 0 (i + int n)) else min (nat i) n)"

text \<open>\<^verbatim>\<open>a[y0:y1, x0:x1]\<close> on a plane.\<close>

definition getitem2 :: "'a array2 \<Rightarrow> int \<Rightarrow> int \<Rightarrow> int \<Rightarrow> int \<Rightarrow> 'a array2" where
  "getitem2 a y0 y1 x0 x1 =
     (let ys = slice_bound y0 (nrows a); ye = slice_bound y1 (nrows a);
          xs = slice_bound x0 (ncols a); xe = slice_bound x1 (ncols a)
      in \<lparr>nrows = ye - ys, ncols = xe - xs,
          pixels = concat (map (\<lambda>y. take (xe - xs) (drop (y * ncols a + xs) (pixels a)))
                               [ys..<ye])\<rparr>)"

text \<open>
  The right-hand side of an assignment to an \<open>h \<times> w\<close> block is broadcast: an axis of
  length one is repeated, any other mismatch is a ValueError.
\<close>

definition broadcast_to :: "'a array2 \<Rightarrow> nat \<Rightarrow> nat \<Rightarrow> py_error + 'a list" where
  "broadcast_to src h w =
     (if (nrows src = h \<or> nrows src = 1) \<and> (ncols src = w \<or> ncols src = 1)
      then Inr (concat (map (\<lambda>y. map (\<lambda>x. pixels src ! ((if nrows src = h then y else 0) * ncols src
                                                   + (if ncols src = w then x else 0)))
                                      [0..<w])
                            [0..<h]))
      else Inl ValueError)"

text \<open>Overwriting the \<open>j\<close>-th block of \<open>n\<close> cells of a buffer.\<close>

definition assign_block :: "'a list \<Rightarrow> nat \<Rightarrow> nat \<Rightarrow> 'a list \<Rightarrow> 'a list" where
  "assign_block buf j n blk = take (j * n) buf @ blk @ drop (j * n + n) buf"

text \<open>The \<open>j\<close>-th block of \<open>n\<close> cells: \<^verbatim>\<open>a[j]\<close> on the first axis.\<close>

definition block :: "'a list \<Rightarrow> nat \<Rightarrow> nat \<Rightarrow> 'a list" where
  "block buf j n = take n (drop (j * n) buf)"

section \<open>The image source and the region of interest\<close>

text \<open>
  \<^verbatim>\<open>OMEImageFile\<close> and \<^verbatim>\<open>ImagejRoi\<close> come from libraries; only the attributes and methods
  that \<^verbatim>\<open>export.py\<close> uses appear, the methods as functions that may raise.
  \<open>image_plane img ix\<close> is \<^verbatim>\<open>img.image(ix).image\<close>, with samples of 16 bits, the type of
  the buffer that line 50 stores them in. The bounds of a ROI are \<open>roi_left\<close>,
  \<open>roi_right\<close>, \<open>roi_top\<close> and \<open>roi_bottom\<close>.
\<close>

record OMEImageFile =
  width :: int
  height :: int
  zstacks :: "int list"
  n_frames :: int
  n_channels :: int
  um_per_pix :: rat
  um_per_z :: rat
  ix_at :: "int \<Rightarrow> int \<Rightarrow> int \<Rightarrow> py_error + int"
  image_plane :: "int \<Rightarrow> py_error + uint16 array2"

record ImagejRoi =
  roi_left :: pynum
  roi_right :: pynum
  roi_top :: pynum
  roi_bottom :: pynum
  t_position :: int

text \<open>
  What the code leaves to the machine: the content of a fresh \<^verbatim>\<open>np.empty\<close> cell, and the
  byte that \<^verbatim>\<open>astype(np.uint8)\<close> gives for a double that has no integer value in range
  (numpy warns and does not define it).
\<close>

record runtime =
  uninit :: uint16
  undefined_cast :: "float64 \<Rightarrow> uint8"

section \<open>Normalisation (line 56)\<close>

text \<open>
  \<^verbatim>\<open>min()\<close> and \<^verbatim>\<open>ptp()\<close> raise a ValueError on an array without cells. The cast
  \<^verbatim>\<open>astype(np.uint8)\<close> truncates a double towards zero; for a double outside the range of a
  byte, or not a number, the byte is the runtime's.
\<close>

definition np_min :: "'a::len word list \<Rightarrow> py_error + 'a word" where
  "np_min xs = (case xs of [] \<Rightarrow> Inl ValueError | x # r \<Rightarrow> Inr (fold min r x))"

definition np_ptp :: "'a::len word list \<Rightarrow> py_error + 'a word" where
  "np_ptp xs = (case xs of [] \<Rightarrow> Inl ValueError | x # r \<Rightarrow> Inr (fold max r x - fold min r x))"

definition astype_uint8 :: "(float64 \<Rightarrow> uint8) \<Rightarrow> float64 \<Rightarrow> uint8" where
  "astype_uint8 ub x =
     (case x of
        Finite q \<Rightarrow> if - 1 < q \<and> q < 256 then word_of_int (trunc q) else ub x
      | _ \<Rightarrow> ub x)"

text \<open>
  \<^verbatim>\<open>((image - image.min()) / (image.ptp() / 255.0)).astype(np.uint8)\<close>. The subtraction is
  in the array's own unsigned type, the divisions are double divisions.
\<close>

definition normalize_uint8 :: "(float64 \<Rightarrow> uint8) \<Rightarrow> 'a::len word ndarray \<Rightarrow> py_error + uint8 ndarray" where
  "normalize_uint8 ub image_arr =
     (case np_min (nd_data image_arr) of
        Inl e \<Rightarrow> Inl e
      | Inr lo \<Rightarrow>
          (case np_ptp (nd_data image_arr) of
             Inl e \<Rightarrow> Inl e
           | Inr rng \<Rightarrow>
               (let d = fl64 (float_of_word rng / 255)
                in Inr \<lparr>nd_shape = nd_shape image_arr,
                        nd_data = map (\<lambda>v. astype_uint8 ub (float_div (float_of_word (v - lo)) d))
                                      (nd_data image_arr)\<rparr>)))"

section \<open>Assembly of the volume (lines 19 to 58)\<close>

text \<open>\<^verbatim>\<open>img_z[j, :, :] = src\<close> for a buffer of \<open>h \<times> w\<close> planes.\<close>

definition setitem_plane :: "nat \<Rightarrow> nat \<Rightarrow> 'a ndarray \<Rightarrow> nat \<Rightarrow> 'a array2 \<Rightarrow> py_error + 'a ndarray" where
  "setitem_plane h w img_z j src =
     (case broadcast_to src h w of
        Inl e \<Rightarrow> Inl e
      | Inr blk \<Rightarrow> Inr (img_z\<lparr>nd_data := assign_block (nd_data img_z) j (h * w) blk\<rparr>))"

text \<open>The loop of lines 46 to 50 over \<^verbatim>\<open>enumerate(img_struct.zstacks)\<close>.\<close>

fun z_loop ::
  "OMEImageFile \<Rightarrow> int \<Rightarrow> int \<Rightarrow> nat \<Rightarrow> nat \<Rightarrow> int \<times> int \<times> int \<times> int \<Rightarrow> (nat \<times> int) list
   \<Rightarrow> uint16 ndarray \<Rightarrow> py_error + uint16 ndarray" where
  "z_loop img_struct channel frame h w rect [] img_z = Inr img_z"
| "z_loop img_struct channel frame h w (y0, y1, x0, x1) ((j, z) # rest) img_z =
     (case ix_at img_struct channel z frame of
        Inl e \<Rightarrow> Inl e
      | Inr ix \<Rightarrow>
          (case image_plane img_struct ix of
             Inl e \<Rightarrow> Inl e
           | Inr mdimg \<Rightarrow>
               (case setitem_plane h w img_z j (getitem2 mdimg y0 y1 x0 x1) of
                  Inl e \<Rightarrow> Inl e
                | Inr img_z' \<Rightarrow> z_loop img_struct channel frame h w (y0, y1, x0, x1) rest img_z')))"

text \<open>The loop of lines 44 to 53 over \<^verbatim>\<open>enumerate(frames)\<close>.\<close>

fun frame_loop ::
  "uint16 \<Rightarrow> OMEImageFile \<Rightarrow> int \<Rightarrow> pynum \<Rightarrow> pynum \<Rightarrow> int \<times> int \<times> int \<times> int \<Rightarrow> (nat \<times> int) list
   \<Rightarrow> uint16 ndarray \<Rightarrow> py_error + uint16 ndarray" where
  "frame_loop junk img_struct channel h w rect [] image_arr = Inr image_arr"
| "frame_loop junk img_struct channel h w rect ((i, frame) # rest) image_arr =
     (case np_empty junk [PyInt (int (length (zstacks img_struct))), h, w] of
        Inl e \<Rightarrow> Inl e
      | Inr img_z \<Rightarrow>
          (case z_loop img_struct channel frame (nat (py_int h)) (nat (py_int w)) rect
                  (enumerate 0 (zstacks img_struct)) img_z of
             Inl e \<Rightarrow> Inl e
           | Inr img_z' \<Rightarrow>
               frame_loop junk img_struct channel h w rect rest
                 (image_arr\<lparr>nd_data := assign_block (nd_data image_arr) i
                     (length (zstacks img_struct) * nat (py_int h) * nat (py_int w))
                     (nd_data img_z')\<rparr>)))"

text \<open>Lines 26 to 41: the crop rectangle \<open>(w, h, (y0, y1, x0, x1))\<close>.\<close>

definition crop_rect :: "OMEImageFile \<Rightarrow> ImagejRoi option \<Rightarrow> pynum \<times> pynum \<times> int \<times> int \<times> int \<times> int" where
  "crop_rect img_struct roi =
     (case roi of
        Some r \<Rightarrow>
          (let w = py_abs (py_sub (roi_right r) (roi_left r));
               h = py_abs (py_sub (roi_top r) (roi_bottom r));
               x0 = py_int (roi_left r);
               y0 = py_int (roi_top r);
               x1 = py_int (py_add (PyInt x0) w);
               y1 = py_int (py_add (PyInt y0) h)
           in (w, h, y0, y1, x0, x1))
      | None \<Rightarrow>
          (PyInt (width img_struct), PyInt (height img_struct),
           0, height img_struct, 0, width img_struct))"

definition bioformats_to_ndarray_zstack_timeseries ::
  "runtime \<Rightarrow> OMEImageFile \<Rightarrow> int list \<Rightarrow> ImagejRoi option \<Rightarrow> int \<Rightarrow> py_error + uint8 ndarray" where
  "bioformats_to_ndarray_zstack_timeseries rt img_struct frames roi channel =
     (case crop_rect img_struct roi of
        (w, h, rect) \<Rightarrow>
          (case np_empty (uninit rt)
                  [PyInt (int (length frames)), PyInt (int (length (zstacks img_struct))), h, w] of
             Inl e \<Rightarrow> Inl e
           | Inr image_arr \<Rightarrow>
               (case frame_loop (uninit rt) img_struct channel h w rect (enumerate 0 frames) image_arr of
                  Inl e \<Rightarrow> Inl e
                | Inr image_arr' \<Rightarrow> normalize_uint8 (undefined_cast rt) image_arr')))"

section \<open>The VTK image (lines 61 to 80)\<close>

datatype vtk_scalar_type = VTK_UNSIGNED_CHAR | VTK_SHORT | VTK_UNSIGNED_SHORT | VTK_FLOAT | VTK_DOUBLE

text \<open>
  The settings of a \<^verbatim>\<open>vtkImageImport\<close> that \<^verbatim>\<open>_ndarray_to_vtk_image\<close> makes: the copied
  buffer and the six settings of lines 69 to 78. The function sets every one of them, so
  the defaults of a fresh importer do not show.
\<close>

record vtkImageImport =
  import_void_pointer :: "uint8 list"
  data_scalar_type :: vtk_scalar_type
  number_of_scalar_components :: int
  scalar_array_name :: string
  data_extent :: "int \<times> int \<times> int \<times> int \<times> int \<times> int"
  whole_extent :: "int \<times> int \<times> int \<times> int \<times> int \<times> int"
  data_spacing :: "rat \<times> rat \<times> rat"

text \<open>\<^verbatim>\<open>data.tobytes()\<close> of an unsigned 8-bit array: one byte per cell, in C order.\<close>

definition tobytes :: "uint8 ndarray \<Rightarrow> uint8 list" where
  "tobytes data = nd_data data"

text \<open>
  Line 62 unpacks the shape into \<^verbatim>\<open>ztot, col, row\<close>, a ValueError unless the array has
  three dimensions. \<open>um_pix\<close> and \<open>um_z\<close> are the arguments \<^verbatim>\<open>um_per_pix\<close> and
  \<^verbatim>\<open>um_per_z\<close>.
\<close>

definition ndarray_to_vtk_image :: "uint8 ndarray \<Rightarrow> rat \<Rightarrow> rat \<Rightarrow> py_error + vtkImageImport" where
  "ndarray_to_vtk_image data um_pix um_z =
     (case nd_shape data of
        [ztot, col, row] \<Rightarrow>
          (let data_string = tobytes data
           in Inr \<lparr>import_void_pointer = take (length data_string) data_string,
                   data_scalar_type = VTK_UNSIGNED_CHAR,
                   number_of_scalar_components = 1,
                   scalar_array_name = ''density'',
                   data_extent = (1, int row, 1, int col, 1, int ztot),
                   whole_extent = (1, int row, 1, int col, 1, int ztot),
                   data_spacing = (um_pix, um_pix, um_z)\<rparr>)
      | _ \<Rightarrow> Inl ValueError)"

section \<open>Paths and files\<close>

text \<open>
  A \<^verbatim>\<open>pathlib\<close> path is the list of its parts; an absolute path starts with its root,
  the part \<^verbatim>\<open>/\<close>, or \<^verbatim>\<open>//\<close> when the string starts with exactly two slashes. Parts \<^verbatim>\<open>..\<close>
  and drives are not interpreted.
\<close>

type_synonym path = "string list"

fun split_slash :: "string \<Rightarrow> string list" where
  "split_slash [] = [[]]"
| "split_slash (c # cs) =
     (if c = CHR ''/'' then [] # split_slash cs
      else (case split_slash cs of [] \<Rightarrow> [[c]] | x # xs \<Rightarrow> (c # x) # xs))"

definition root_of :: "string \<Rightarrow> string" where
  "root_of s =
     (if take 1 s \<noteq> ''/'' then []
      else if take 2 s = ''//'' \<and> take 3 s \<noteq> ''///'' then ''//''
      else ''/'')"

definition Path :: "string \<Rightarrow> path" where
  "Path s =
     (let parts = filter (\<lambda>x. x \<noteq> [] \<and> x \<noteq> ''.'') (split_slash s)
      in if root_of s = [] then parts else root_of s # parts)"

definition is_root :: "string \<Rightarrow> bool" where
  "is_root x = (x = ''/'' \<or> x = ''//'')"

definition is_absolute :: "path \<Rightarrow> bool" where
  "is_absolute p = (case p of [] \<Rightarrow> False | x # _ \<Rightarrow> is_root x)"

definition parent :: "path \<Rightarrow> path" where
  "parent p = (if p = [''/''] \<or> p = [''//''] then p else butlast p)"

definition path_name :: "path \<Rightarrow> string" where
  "path_name p = (if p = [] \<or> p = [''/''] \<or> p = [''//''] then [] else last p)"

text \<open>\<^verbatim>\<open>p / q\<close>: an absolute right operand replaces the left one.\<close>

definition joinpath :: "path \<Rightarrow> path \<Rightarrow> path" where
  "joinpath p q = (if is_absolute q then q else p @ q)"

fun join_slash :: "string list \<Rightarrow> string" where
  "join_slash [] = []"
| "join_slash [x] = x"
| "join_slash (x # y # ys) = x @ ''/'' @ join_slash (y # ys)"

definition as_posix :: "path \<Rightarrow> string" where
  "as_posix p =
     (case p of
        [] \<Rightarrow> ''.''
      | x # xs \<Rightarrow> if is_root x then x @ join_slash xs else join_slash (x # xs))"

text \<open>
  The files of the disk, by path. Directories are not files and are not modelled.
\<close>

type_synonym filesystem = "path \<rightharpoonup> uint8 list"

section \<open>The writer (lines 83 to 89)\<close>

text \<open>
  \<^verbatim>\<open>vtkOpenVDBWriter\<close> is a library class. \<open>writer_update vtk_image filename fs\<close> stands for
  the files after its \<^verbatim>\<open>Update()\<close> with that input and that file name, from the files
  \<open>fs\<close>.
\<close>

type_synonym vdb_writer = "vtkImageImport \<Rightarrow> path \<Rightarrow> filesystem \<Rightarrow> filesystem"

definition save_vtk_image_to_disk :: "vdb_writer \<Rightarrow> vtkImageImport \<Rightarrow> path \<Rightarrow> filesystem \<Rightarrow> filesystem" where
  "save_vtk_image_to_disk writer_update vtk_image filename fs =
     (let fs1 = (if fs filename \<noteq> None then fs(filename := None) else fs)
      in writer_update vtk_image filename fs1)"

text \<open>
  Two behaviours a writer can have. One that completes leaves the serialised image at
  the file name. One that appends keeps what a file of that name already holds.
\<close>

definition complete_writer :: "(vtkImageImport \<Rightarrow> uint8 list) \<Rightarrow> vdb_writer" where
  "complete_writer ser vtk_image filename fs = fs(filename \<mapsto> ser vtk_image)"

definition appending_writer :: "(vtkImageImport \<Rightarrow> uint8 list) \<Rightarrow> vdb_writer" where
  "appending_writer ser vtk_image filename fs =
     fs(filename \<mapsto> (case fs filename of None \<Rightarrow> [] | Some old \<Rightarrow> old) @ ser vtk_image)"

text \<open>A writer creates files: on a name that no file has, it leaves the serialised image.\<close>

definition creates_files :: "vdb_writer \<Rightarrow> (vtkImageImport \<Rightarrow> uint8 list) \<Rightarrow> bool" where
  "creates_files writer_update ser =
     (\<forall>vtk_image filename fs. fs filename = None \<longrightarrow>
        writer_update vtk_image filename fs = fs(filename \<mapsto> ser vtk_image))"

text \<open>Lines 92 to 94: encode, then write.\<close>

definition save_ndarray_as_vdb ::
  "vdb_writer \<Rightarrow> uint8 ndarray \<Rightarrow> rat \<Rightarrow> rat \<Rightarrow> path \<Rightarrow> filesystem \<Rightarrow> py_error + filesystem" where
  "save_ndarray_as_vdb writer_update data um_pix um_z filename fs =
     (case ndarray_to_vtk_image data um_pix um_z of
        Inl e \<Rightarrow> Inl e
      | Inr vtkim \<Rightarrow> Inr (save_vtk_image_to_disk writer_update vtkim filename fs))"

section \<open>Configuration files (lines 100 to 137)\<close>

text \<open>
  A parsed project file: sections of options. \<^verbatim>\<open>configparser\<close> keeps the names of the
  sections as they are written and turns the name of an option to lower case
  (\<^verbatim>\<open>optionxform\<close>), when it stores the option and when it looks one up. So the options of
  a section are held by their lower-case names.
\<close>

type_synonym config = "string \<rightharpoonup> (string \<rightharpoonup> string)"

definition ascii_lower :: "char \<Rightarrow> char" where
  "ascii_lower c =
     (case map_of (zip ''ABCDEFGHIJKLMNOPQRSTUVWXYZ'' ''abcdefghijklmnopqrstuvwxyz'') c of
        None \<Rightarrow> c
      | Some l \<Rightarrow> l)"

definition optionxform :: "string \<Rightarrow> string" where
  "optionxform s = map ascii_lower s"

text \<open>\<^verbatim>\<open>name in cfg[section]\<close> and \<^verbatim>\<open>cfg[section][name]\<close> on the options of a section.\<close>

definition get_option :: "(string \<rightharpoonup> string) \<Rightarrow> string \<Rightarrow> string option" where
  "get_option section_options name = section_options (optionxform name)"

text \<open>The fields of the named tuple \<^verbatim>\<open>ExportConfig\<close>, each with the prefix \<open>ec_\<close>.\<close>

record ExportConfig =
  ec_series :: int
  ec_frames :: "int list"
  ec_channels :: "int list"
  ec_path :: path
  ec_name :: string
  ec_image_file :: OMEImageFile
  ec_roi :: "ImagejRoi option"
  ec_um_per_z :: rat

text \<open>
  What \<^verbatim>\<open>read_config\<close> takes from outside: the parsed content of a project file
  (\<^verbatim>\<open>_load_project_file\<close>), \<^verbatim>\<open>ImagejRoi.fromfile\<close>, the constructor of \<^verbatim>\<open>OMEImageFile\<close>, and
  Python's \<^verbatim>\<open>int\<close> and \<^verbatim>\<open>float\<close> on a string.
\<close>

record environment =
  load_project_file :: "path \<Rightarrow> config"
  ImagejRoi_fromfile :: "path \<Rightarrow> py_error + ImagejRoi"
  OMEImageFile_open :: "string \<Rightarrow> int \<Rightarrow> py_error + OMEImageFile"
  int_of_str :: "string \<Rightarrow> py_error + int"
  float_of_str :: "string \<Rightarrow> py_error + rat"

text \<open>
  \<^verbatim>\<open>im_frame\<close> is the string of the option \<^verbatim>\<open>frame\<close> or, after line 126, the integer
  \<^verbatim>\<open>roi.t_position\<close>.
\<close>

datatype setting = Text string | Number int

definition int_of_setting :: "environment \<Rightarrow> setting \<Rightarrow> py_error + int" where
  "int_of_setting env v = (case v of Text s \<Rightarrow> int_of_str env s | Number n \<Rightarrow> Inr n)"

text \<open>
  \<^verbatim>\<open>range(n) if v == "all" else [int(v)]\<close>, the selection of lines 131 and 132.
\<close>

definition selection :: "environment \<Rightarrow> setting \<Rightarrow> int \<Rightarrow> py_error + int list" where
  "selection env v n =
     (if v = Text ''all'' then Inr (py_range n)
      else (case int_of_setting env v of Inl e \<Rightarrow> Inl e | Inr k \<Rightarrow> Inr [k]))"

text \<open>
  Lines 119 to 126. The ROI is loaded, and the frame replaced by its time position, inside
  the branch of the relative path.
\<close>

definition process_roi_path ::
  "environment \<Rightarrow> path \<Rightarrow> (string \<rightharpoonup> string) \<Rightarrow> setting \<Rightarrow> py_error + (ImagejRoi option \<times> setting)" where
  "process_roi_path env cfg_path data im_frame =
     (case get_option data ''ROI'' of
        None \<Rightarrow> Inr (None, im_frame)
      | Some s \<Rightarrow>
          (let roi_path = Path s
           in if \<not> is_absolute roi_path
              then (case ImagejRoi_fromfile env (joinpath (parent cfg_path) roi_path) of
                      Inl e \<Rightarrow> Inl e
                    | Inr roi \<Rightarrow> Inr (Some roi, Number (t_position roi)))
              else Inr (None, im_frame)))"

definition read_config :: "environment \<Rightarrow> path \<Rightarrow> py_error + ExportConfig" where
  "read_config env cfg_path =
     (case load_project_file env cfg_path ''DATA'' of
        None \<Rightarrow> Inl KeyError
      | Some data \<Rightarrow>
     (case get_option data ''series'' of
        None \<Rightarrow> Inl KeyError
      | Some series_str \<Rightarrow>
     (case int_of_str env series_str of
        Inl e \<Rightarrow> Inl e
      | Inr im_series \<Rightarrow>
     (case get_option data ''frame'' of
        None \<Rightarrow> Inl KeyError
      | Some frame_str \<Rightarrow>
     (case get_option data ''channel'' of
        None \<Rightarrow> Inl KeyError
      | Some im_channel \<Rightarrow>
     (case get_option data ''image'' of
        None \<Rightarrow> Inl KeyError
      | Some image_str \<Rightarrow>
     (case process_roi_path env cfg_path data (Text frame_str) of
        Inl e \<Rightarrow> Inl e
      | Inr (roi, im_frame) \<Rightarrow>
     (case OMEImageFile_open env (as_posix (Path image_str)) im_series of
        Inl e \<Rightarrow> Inl e
      | Inr img_file \<Rightarrow>
     (case selection env im_frame (n_frames img_file) of
        Inl e \<Rightarrow> Inl e
      | Inr frames \<Rightarrow>
     (case selection env (Text im_channel) (n_channels img_file) of
        Inl e \<Rightarrow> Inl e
      | Inr channels \<Rightarrow>
     (case (case get_option data ''um_per_z'' of
              Some s \<Rightarrow> float_of_str env s
            | None \<Rightarrow> Inr (um_per_z img_file)) of
        Inl e \<Rightarrow> Inl e
      | Inr z_um \<Rightarrow>
          Inr \<lparr>ec_series = im_series, ec_frames = frames, ec_channels = channels,
               ec_path = parent cfg_path, ec_name = path_name cfg_path,
               ec_image_file = img_file, ec_roi = roi, ec_um_per_z = z_um\<rparr>)))))))))))"

section \<open>The export driver (lines 140 to 160)\<close>

text \<open>The format specifications \<^verbatim>\<open>01d\<close> and \<^verbatim>\<open>03d\<close>: decimal digits, zero-padded to a width.\<close>

definition digit :: "nat \<Rightarrow> char" where
  "digit d = char_of (48 + d)"

fun digits :: "nat \<Rightarrow> string" where
  "digits n = (if n < 10 then [digit n] else digits (n div 10) @ [digit (n mod 10)])"

declare digits.simps [simp del]

definition zero_pad :: "nat \<Rightarrow> string \<Rightarrow> string" where
  "zero_pad k s = replicate (k - length s) CHR ''0'' @ s"

definition format_d :: "nat \<Rightarrow> int \<Rightarrow> string" where
  "format_d k n =
     (if n < 0 then CHR ''-'' # zero_pad (k - 1) (digits (nat (- n)))
      else zero_pad k (digits (nat n)))"

text \<open>Iterating over an array gives its sub-arrays along the first axis.\<close>

definition iter_first_axis :: "'a ndarray \<Rightarrow> py_error + 'a ndarray list" where
  "iter_first_axis a =
     (case nd_shape a of
        [] \<Rightarrow> Inl TypeError
      | n # rest \<Rightarrow>
          Inr (map (\<lambda>i. \<lparr>nd_shape = rest, nd_data = block (nd_data a) i (prod_list rest)\<rparr>)
                   [0..<n]))"

text \<open>
  \<^verbatim>\<open>ensure_dir\<close> makes the directory and returns its path. The driver's result is the
  files it leaves and the exception that ended it, if one did.
\<close>

definition ensure_dir :: "path \<Rightarrow> path" where
  "ensure_dir p = p"

definition vdb_file :: "path \<Rightarrow> int \<Rightarrow> nat \<Rightarrow> path" where
  "vdb_file export_path ch fr =
     joinpath export_path
       (Path (''vol_ch'' @ format_d 1 ch @ ''_fr'' @ format_d 3 (int fr) @ ''.vdb''))"

definition export_dir :: "path \<Rightarrow> int \<Rightarrow> path" where
  "export_dir cfg_path ch =
     ensure_dir (joinpath (joinpath (parent cfg_path) (Path ''openvdb''))
                          (Path (''ch'' @ format_d 1 ch)))"

text \<open>The loop of lines 156 to 160 over \<^verbatim>\<open>enumerate(vol_timeseries)\<close>.\<close>

fun frames_loop ::
  "vdb_writer \<Rightarrow> ExportConfig \<Rightarrow> path \<Rightarrow> int \<Rightarrow> (nat \<times> uint8 ndarray) list \<Rightarrow> filesystem
   \<Rightarrow> filesystem \<times> py_error option" where
  "frames_loop writer_update cfg export_path ch [] fs = (fs, None)"
| "frames_loop writer_update cfg export_path ch ((fr, vol) # rest) fs =
     (if int fr \<notin> set (ec_frames cfg) then frames_loop writer_update cfg export_path ch rest fs
      else (case ndarray_to_vtk_image vol (um_per_pix (ec_image_file cfg)) (ec_um_per_z cfg) of
              Inl e \<Rightarrow> (fs, Some e)
            | Inr vtkim \<Rightarrow>
                frames_loop writer_update cfg export_path ch rest
                  (save_vtk_image_to_disk writer_update vtkim (vdb_file export_path ch fr) fs)))"

text \<open>The loop of lines 149 to 160 over \<^verbatim>\<open>cfg.channels\<close>.\<close>

fun channels_loop ::
  "runtime \<Rightarrow> vdb_writer \<Rightarrow> ExportConfig \<Rightarrow> path \<Rightarrow> int list \<Rightarrow> filesystem
   \<Rightarrow> filesystem \<times> py_error option" where
  "channels_loop rt writer_update cfg cfg_path [] fs = (fs, None)"
| "channels_loop rt writer_update cfg cfg_path (ch # rest) fs =
     (let export_path = export_dir cfg_path ch;
          frames = py_range (n_frames (ec_image_file cfg))
      in case bioformats_to_ndarray_zstack_timeseries rt (ec_image_file cfg) frames (ec_roi cfg) ch of
           Inl e \<Rightarrow> (fs, Some e)
         | Inr vol_timeseries \<Rightarrow>
             (case iter_first_axis vol_timeseries of
                Inl e \<Rightarrow> (fs, Some e)
              | Inr vols \<Rightarrow>
                  (case frames_loop writer_update cfg export_path ch (enumerate 0 vols) fs of
                     (fs', Some e) \<Rightarrow> (fs', Some e)
                   | (fs', None) \<Rightarrow> channels_loop rt writer_update cfg cfg_path rest fs')))"

text \<open>
  The body of the loop of line 145 for one configuration file, once it is read, and the
  loop itself over the one path of line 143. The call of line 162 that stops the Java
  machine has no part in the files.
\<close>

definition export_config ::
  "runtime \<Rightarrow> vdb_writer \<Rightarrow> path \<Rightarrow> ExportConfig \<Rightarrow> filesystem \<Rightarrow> filesystem \<times> py_error option" where
  "export_config rt writer_update cfg_path cfg fs =
     channels_loop rt writer_update cfg cfg_path (ec_channels cfg) fs"

fun configs_loop ::
  "runtime \<Rightarrow> environment \<Rightarrow> vdb_writer \<Rightarrow> path list \<Rightarrow> filesystem
   \<Rightarrow> filesystem \<times> py_error option" where
  "configs_loop rt env writer_update [] fs = (fs, None)"
| "configs_loop rt env writer_update (cfg_path # rest) fs =
     (case read_config env cfg_path of
        Inl e \<Rightarrow> (fs, Some e)
      | Inr cfg \<Rightarrow>
          (case export_config rt writer_update cfg_path cfg fs of
             (fs', Some e) \<Rightarrow> (fs', Some e)
           | (fs', None) \<Rightarrow> configs_loop rt env writer_update rest fs'))"

definition main :: "runtime \<Rightarrow> environment \<Rightarrow> vdb_writer \<Rightarrow> filesystem \<Rightarrow> filesystem \<times> py_error option" where
  "main rt env writer_update fs =
     configs_loop rt env writer_update [joinpath (Path ''.'') (Path ''example.cfg'')] fs"

section \<open>The specification's rounding, for comparison\<close>

text \<open>
  The specification words the normalised element as
  \<^verbatim>\<open>round((value - lo) / (range / 255.0))\<close>; this is that formula, with Python's \<^verbatim>\<open>round\<close>
  (ties to even), on the same double quotient.
\<close>

definition spec_round_elem :: "nat \<Rightarrow> nat \<Rightarrow> nat \<Rightarrow> uint8" where
  "spec_round_elem lo rng v =
     word_of_int (round_half_even (fl64 (of_nat (v - lo) / fl64 (of_nat rng / 255))))"


section \<open>Vocabulary of the statements\<close>

text \<open>The plane of a (channel, z, frame), as lines 48 and 49 fetch it.\<close>

definition plane_at :: "OMEImageFile \<Rightarrow> int \<Rightarrow> int \<Rightarrow> int \<Rightarrow> py_error + uint16 array2" where
  "plane_at img c z t = (case ix_at img c z t of Inl e \<Rightarrow> Inl e | Inr ix \<Rightarrow> image_plane img ix)"

text \<open>
  A source serves the frames of a channel when it has the plane of every z position of
  every frame, with the height and width it reports.
\<close>

definition serves :: "OMEImageFile \<Rightarrow> int list \<Rightarrow> int \<Rightarrow> bool" where
  "serves img frames c =
     list_all (\<lambda>t. list_all (\<lambda>z. case plane_at img c z t of
                                      Inl _ \<Rightarrow> False
                                    | Inr p \<Rightarrow> nrows p = nat (height img) \<and> ncols p = nat (width img))
                              (zstacks img))
              frames"

text \<open>
  A source with 2 frames, 3 z positions and one channel of \<open>4 \<times> 4\<close> planes; plane \<open>k\<close>
  holds the samples \<open>0, k + 1, 2 (k + 1), \<dots>\<close>.
\<close>

definition example_source :: OMEImageFile where
  "example_source =
     \<lparr>width = 4, height = 4, zstacks = [0, 1, 2], n_frames = 2, n_channels = 1,
      um_per_pix = 1 / 4, um_per_z = 1 / 2,
      ix_at = (\<lambda>c z t. if c = 0 \<and> 0 \<le> z \<and> z < 3 \<and> 0 \<le> t \<and> t < 2
                        then Inr (t * 3 + z) else Inl IndexError),
      image_plane = (\<lambda>ix. if 0 \<le> ix \<and> ix < 6
                          then Inr \<lparr>nrows = 4, ncols = 4,
                                    pixels = map (\<lambda>k. word_of_nat (k * nat (ix + 1))) [0..<16]\<rparr>
                          else Inl IndexError)\<rparr>"

definition example_runtime :: runtime where
  "example_runtime = \<lparr>uninit = 0, undefined_cast = (\<lambda>_. 0)\<rparr>"

text \<open>
  Reading a formatted number back, to tell that different numbers give different file
  names.
\<close>

definition digit_value :: "char \<Rightarrow> nat" where
  "digit_value c = of_char c - 48"

definition decimal_value :: "string \<Rightarrow> nat" where
  "decimal_value s = foldl (\<lambda>a c. 10 * a + digit_value c) 0 s"

definition signed_value :: "string \<Rightarrow> int" where
  "signed_value s =
     (case s of
        [] \<Rightarrow> 0
      | c # r \<Rightarrow> if c = CHR ''-'' then - int (decimal_value r) else int (decimal_value s))"

text \<open>
  An environment with one project file, \<^verbatim>\<open>example.cfg\<close>, whose options are given, and one
  ROI file that is found both at \<^verbatim>\<open>/data/cell.roi\<close> and at \<^verbatim>\<open>cell.roi\<close>. The ROI is the
  square from 1 to 3 at time position 0.
\<close>

definition example_roi :: ImagejRoi where
  "example_roi = \<lparr>roi_left = PyInt 1, roi_right = PyInt 3, roi_top = PyInt 1,
                   roi_bottom = PyInt 3, t_position = 0\<rparr>"

definition example_env :: "(string \<times> string) list \<Rightarrow> environment" where
  "example_env options =
     \<lparr>load_project_file =
        (\<lambda>p. if p = [''example.cfg'']
             then [''DATA'' \<mapsto> map_of (map (\<lambda>(name, v). (optionxform name, v)) options)]
             else Map.empty),
      ImagejRoi_fromfile =
        (\<lambda>p. if p = [''/'', ''data'', ''cell.roi''] \<or> p = [''cell.roi'']
             then Inr example_roi else Inl OSError),
      OMEImageFile_open = (\<lambda>name series. Inr example_source),
      int_of_str =
        (\<lambda>s. if s = ''0'' then Inr 0 else if s = ''1'' then Inr 1 else Inl ValueError),
      float_of_str = (\<lambda>s. Inl ValueError)\<rparr>"

text \<open>A configuration of the example source that selects frame 1 of channel 0.\<close>

definition example_config :: ExportConfig where
  "example_config =
     \<lparr>ec_series = 0, ec_frames = [1], ec_channels = [0], ec_path = [],
      ec_name = ''example.cfg'', ec_image_file = example_source, ec_roi = None,
      ec_um_per_z = 1 / 2\<rparr>"

section \<open>Properties of the double rounding\<close>

text \<open>
  \<open>ilog2 x\<close> is the exponent of \<open>x\<close>: \<open>2\<^bsup>ilog2 x\<^esup> \<le> x < 2\<^bsup>ilog2 x + 1\<^esup>\<close>. So \<open>fl64\<close>
  keeps 53 significant bits, its relative error is at most \<open>2\<^sup>-\<^sup>5\<^sup>3\<close>, and it leaves
  the integers below \<open>2\<^sup>5\<^sup>3\<close> as they are.
\<close>

lemma ilog2_lower:
  assumes "0 < x"
  shows "2 powi (ilog2 x) \<le> x"
proof (cases "1 \<le> x")
  case True
  then have pos: "0 < \<lfloor>x\<rfloor>" by linarith
  from bitlen_bounds[OF pos] have b: "2 ^ nat (bitlen \<lfloor>x\<rfloor> - 1) \<le> \<lfloor>x\<rfloor>" by simp
  have ge1: "1 \<le> bitlen \<lfloor>x\<rfloor>"
    using pos bitlen_eq_zero_iff[of "\<lfloor>x\<rfloor>"] bitlen_nonneg[of "\<lfloor>x\<rfloor>"] by linarith
  have "(2::rat) powi (bitlen \<lfloor>x\<rfloor> - 1) = 2 ^ nat (bitlen \<lfloor>x\<rfloor> - 1)"
    using ge1 by (simp add: power_int_def)
  also have "\<dots> = of_int (2 ^ nat (bitlen \<lfloor>x\<rfloor> - 1))" by simp
  also have "\<dots> \<le> of_int \<lfloor>x\<rfloor>" using b by (simp only: of_int_le_iff)
  also have "\<dots> \<le> x" by simp
  finally show ?thesis using True by (simp add: ilog2_def)
next
  case False
  define m where "m = \<lceil>1 / x\<rceil> - 1"
  from False assms have "1 < 1 / x" by simp
  then have "1 < \<lceil>1 / x\<rceil>" by linarith
  then have mpos: "0 < m" by (simp add: m_def)
  from bitlen_bounds[OF mpos] have "m < 2 ^ nat (bitlen m)" by simp
  then have "m + 1 \<le> 2 ^ nat (bitlen m)" by simp
  then have "(of_int (m + 1) :: rat) \<le> of_int (2 ^ nat (bitlen m))" by (simp only: of_int_le_iff)
  moreover have "1 / x \<le> of_int (m + 1)" by (simp add: m_def)
  ultimately have le: "1 / x \<le> 2 ^ nat (bitlen m)" by simp
  have "1 / (2 ^ nat (bitlen m)) \<le> x"
    using le assms by (simp add: field_simps)
  moreover have "(2::rat) powi (- bitlen m) = 1 / 2 ^ nat (bitlen m)"
    using bitlen_nonneg[of m] by (simp add: power_int_def divide_simps)
  ultimately show ?thesis using False by (simp add: ilog2_def m_def)
qed

lemma ilog2_upper:
  assumes "0 < x"
  shows "x < 2 powi (ilog2 x + 1)"
proof (cases "1 \<le> x")
  case True
  then have pos: "0 < \<lfloor>x\<rfloor>" by linarith
  from bitlen_bounds[OF pos] have "\<lfloor>x\<rfloor> < 2 ^ nat (bitlen \<lfloor>x\<rfloor>)" by simp
  then have "\<lfloor>x\<rfloor> + 1 \<le> 2 ^ nat (bitlen \<lfloor>x\<rfloor>)" by simp
  then have "(of_int (\<lfloor>x\<rfloor> + 1) :: rat) \<le> of_int (2 ^ nat (bitlen \<lfloor>x\<rfloor>))"
    by (simp only: of_int_le_iff)
  moreover have "x < of_int (\<lfloor>x\<rfloor> + 1)" by linarith
  ultimately have "x < 2 ^ nat (bitlen \<lfloor>x\<rfloor>)" by simp
  moreover have "(2::rat) powi (bitlen \<lfloor>x\<rfloor>) = 2 ^ nat (bitlen \<lfloor>x\<rfloor>)"
    using bitlen_nonneg[of "\<lfloor>x\<rfloor>"] by (simp add: power_int_def)
  ultimately show ?thesis using True by (simp add: ilog2_def)
next
  case False
  define m where "m = \<lceil>1 / x\<rceil> - 1"
  from False assms have "1 < 1 / x" by simp
  then have "1 < \<lceil>1 / x\<rceil>" by linarith
  then have mpos: "0 < m" by (simp add: m_def)
  have ge1: "1 \<le> bitlen m"
    using mpos bitlen_eq_zero_iff[of m] bitlen_nonneg[of m] by linarith
  from bitlen_bounds[OF mpos] have "2 ^ nat (bitlen m - 1) \<le> m" by simp
  then have "(of_int (2 ^ nat (bitlen m - 1)) :: rat) \<le> of_int m" by (simp only: of_int_le_iff)
  then have "(2::rat) ^ nat (bitlen m - 1) \<le> of_int m" by simp
  moreover have "of_int m < 1 / x" unfolding m_def by linarith
  ultimately have lt: "2 ^ nat (bitlen m - 1) < 1 / x" by (rule le_less_trans)
  have "x < 1 / 2 ^ nat (bitlen m - 1)"
    using lt assms by (simp add: field_simps)
  moreover have "(2::rat) powi (- bitlen m + 1) = 1 / 2 ^ nat (bitlen m - 1)"
  proof -
    have "- bitlen m + 1 = - int (nat (bitlen m - 1))" using ge1 by simp
    then show ?thesis by (simp only: power_int_minus_divide power_int_of_nat)
  qed
  ultimately show ?thesis using False by (simp add: ilog2_def m_def)
qed

lemma round_half_even_error: "\<bar>of_int (round_half_even y) - y\<bar> \<le> 1 / 2"
  unfolding round_half_even_def Let_def
  by (auto simp: abs_if; linarith)

lemma round_half_even_of_int [simp]: "round_half_even (of_int k) = k"
  by (simp add: round_half_even_def)

lemma round_half_even_mono_floor: "\<lfloor>y\<rfloor> \<le> round_half_even y"
  by (simp add: round_half_even_def Let_def)

lemma fl64_error:
  assumes "0 < x"
  shows "\<bar>fl64 x - x\<bar> \<le> x / 2 ^ 53"
proof -
  define e where "e = ilog2 x"
  define u :: rat where "u = 2 powi (e - 52)"
  have upos: "0 < u" by (simp add: u_def zero_less_power_int)
  have fl: "fl64 x = of_int (round_half_even (x / u)) * u"
    using assms by (simp add: fl64_def Let_def e_def u_def)
  have "fl64 x - x = (of_int (round_half_even (x / u)) - x / u) * u"
    using upos by (simp add: fl field_simps)
  then have "\<bar>fl64 x - x\<bar> = \<bar>of_int (round_half_even (x / u)) - x / u\<bar> * u"
    using upos by (simp add: abs_mult)
  also have "\<dots> \<le> (1 / 2) * u"
    using upos round_half_even_error[of "x / u"] by (intro mult_right_mono) simp_all
  also have "(1 / 2) * u = 2 powi e / 2 ^ 53"
    by (simp add: u_def power_int_diff)
  also have "\<dots> \<le> x / 2 ^ 53"
    using ilog2_lower[OF assms] by (simp add: e_def divide_right_mono)
  finally show ?thesis .
qed

lemma fl64_nonneg: "0 \<le> x \<Longrightarrow> 0 \<le> fl64 x"
proof -
  assume "0 \<le> x"
  have "0 \<le> round_half_even (\<bar>x\<bar> / 2 powi (ilog2 \<bar>x\<bar> - 52))"
    using round_half_even_mono_floor[of "\<bar>x\<bar> / 2 powi (ilog2 \<bar>x\<bar> - 52)"]
    by (smt (verit) abs_ge_zero divide_nonneg_pos zero_le_floor zero_less_power_int zero_less_numeral)
  then show ?thesis using \<open>0 \<le> x\<close>
    by (simp add: fl64_def Let_def sgn_if zero_le_mult_iff)
qed

lemma fl64_pos:
  assumes "0 < x" shows "0 < fl64 x"
proof -
  have "x / 2 ^ 53 < x" using assms by (simp add: field_simps)
  with fl64_error[OF assms] show ?thesis by linarith
qed

lemma fl64_of_nat:
  assumes "n < 2 ^ 53"
  shows "fl64 (of_nat n) = of_nat n"
proof (cases "n = 0")
  case True
  then show ?thesis by (simp add: fl64_def)
next
  case False
  define e where "e = bitlen (int n) - 1"
  have pos: "0 < int n" using False by simp
  have b: "2 ^ nat e \<le> int n" using bitlen_bounds[OF pos] by (simp add: e_def)
  have ge0: "0 \<le> e"
    using pos bitlen_eq_zero_iff[of "int n"] bitlen_nonneg[of "int n"] unfolding e_def by linarith
  have "int n < int (2 ^ 53)" using assms by (simp only: of_nat_less_iff)
  then have "int n < 2 ^ 53" by (simp only: of_nat_power of_nat_numeral)
  with b have "(2::int) ^ nat e < 2 ^ 53" by (rule le_less_trans)
  then have "nat e < 53" by (rule power_less_imp_less_exp[rotated]) simp
  then have le52: "e \<le> 52" by linarith
  define k where "k = nat (52 - e)"
  have il: "ilog2 (of_nat n) = e"
    using False by (simp add: ilog2_def e_def)
  have "e - 52 = - int k" using le52 by (simp add: k_def)
  then have u: "(2::rat) powi (e - 52) = 1 / 2 ^ k"
    by (simp add: power_int_minus_divide)
  have "of_nat n / (1 / 2 ^ k) = (of_int (int n * 2 ^ k) :: rat)" by simp
  then have r: "round_half_even (of_nat n / (1 / 2 ^ k)) = int n * 2 ^ k"
    by (simp only: round_half_even_of_int)
  have nz: "(of_nat n :: rat) \<noteq> 0" using False by simp
  have "fl64 (of_nat n) = of_int (int n * 2 ^ k) * (1 / 2 ^ k)"
    unfolding fl64_def Let_def using nz il u r by (simp add: sgn_if)
  also have "\<dots> = of_nat n" by simp
  finally show ?thesis .
qed

lemma fl64_crude:
  assumes "0 < x"
  shows "x * (999 / 1000) \<le> fl64 x" and "fl64 x \<le> x * (1001 / 1000)"
proof -
  have "x / 2 ^ 53 \<le> x / 1000"
    using assms by (intro divide_left_mono) simp_all
  with fl64_error[OF assms] have "\<bar>fl64 x - x\<bar> \<le> x / 1000" by linarith
  then show "x * (999 / 1000) \<le> fl64 x" and "fl64 x \<le> x * (1001 / 1000)"
    by linarith+
qed

lemma quotient_range:
  assumes "0 \<le> x" and "x \<le> r" and "0 < r"
  shows "0 \<le> fl64 (x / fl64 (r / 255))" and "fl64 (x / fl64 (r / 255)) < 256"
proof -
  define d where "d = fl64 (r / 255)"
  have rpos: "0 < r / 255" using assms by simp
  have dlb: "(r / 255) * (999 / 1000) \<le> d"
    unfolding d_def by (rule fl64_crude(1)[OF rpos])
  have dpos: "0 < d" unfolding d_def by (rule fl64_pos[OF rpos])
  have "0 \<le> x / d" using assms dpos by simp
  then show "0 \<le> fl64 (x / fl64 (r / 255))"
    unfolding d_def[symmetric] by (rule fl64_nonneg)
  show "fl64 (x / fl64 (r / 255)) < 256"
  proof (cases "x = 0")
    case True
    then show ?thesis by (simp add: fl64_def)
  next
    case False
    define a where "a = x / d"
    from False assms dpos have apos: "0 < a" by (simp add: a_def)
    have "x \<le> (255000 / 999) * d" using dlb assms by linarith
    then have "a \<le> 255000 / 999" using dpos by (simp add: a_def pos_divide_le_eq)
    moreover have "fl64 a \<le> a * (1001 / 1000)" by (rule fl64_crude(2)[OF apos])
    ultimately have "fl64 a < 256" by linarith
    then show ?thesis by (simp only: a_def d_def)
  qed
qed

lemma fl64_0: "fl64 0 = 0" by (simp add: fl64_def)

section \<open>Properties of the normalisation\<close>

lemma np_min_eq: "xs \<noteq> [] \<Longrightarrow> np_min xs = Inr (Min (set xs))"
proof (cases xs)
  case (Cons a list)
  then show ?thesis unfolding np_min_def by (simp only: list.case Min.set_eq_fold)
qed simp

lemma np_ptp_eq: "xs \<noteq> [] \<Longrightarrow> np_ptp xs = Inr (Max (set xs) - Min (set xs))"
proof (cases xs)
  case (Cons a list)
  then show ?thesis unfolding np_ptp_def
    by (simp only: list.case Min.set_eq_fold Max.set_eq_fold)
qed simp

lemma float_of_word_exact:
  fixes v :: "'a::len word"
  assumes "LENGTH('a) \<le> 53"
  shows "float_of_word v = of_nat (unat v)"
proof -
  have "unat v < 2 ^ LENGTH('a)" by (rule unsigned_less)
  also have "\<dots> \<le> 2 ^ 53" using assms by (intro power_increasing) simp_all
  finally show ?thesis unfolding float_of_word_def by (rule fl64_of_nat)
qed

lemma trunc_nonneg: "0 \<le> q \<Longrightarrow> trunc q = \<lfloor>q\<rfloor>"
  by (simp add: trunc_def)

text \<open>
  The normalisation, cell by cell: the quotients lie in the range of a byte, so the cast
  is their floor and the byte of the runtime is not used.
\<close>

lemma normalize_map:
  fixes image_arr :: "'a::len word ndarray"
  assumes len: "LENGTH('a) \<le> 53"
    and ne: "nd_data image_arr \<noteq> []"
    and rng: "Min (set (nd_data image_arr)) \<noteq> Max (set (nd_data image_arr))"
  shows "normalize_uint8 ub image_arr =
     Inr \<lparr>nd_shape = nd_shape image_arr,
          nd_data = map (\<lambda>v. word_of_int \<lfloor>fl64 (of_nat (unat v - unat (Min (set (nd_data image_arr))))
                           / fl64 (of_nat (unat (Max (set (nd_data image_arr)))
                                           - unat (Min (set (nd_data image_arr)))) / 255))\<rfloor>)
                        (nd_data image_arr)\<rparr>"
proof -
  define xs where "xs = nd_data image_arr"
  define lo where "lo = Min (set xs)"
  define hi where "hi = Max (set xs)"
  define r :: rat where "r = of_nat (unat hi - unat lo)"
  define d where "d = fl64 (r / 255)"
  have fin: "finite (set xs)" by simp
  have nes: "set xs \<noteq> {}" using ne by (simp add: xs_def)
  have lo_in: "lo \<in> set xs" unfolding lo_def by (rule Min_in[OF fin nes])
  have lo_le_hi: "lo \<le> hi" unfolding hi_def by (rule Max_ge[OF fin lo_in])
  with rng have "lo < hi" by (simp add: lo_def hi_def xs_def)
  then have "unat lo < unat hi" by (simp add: word_less_nat_alt)
  then have rpos: "0 < r" by (simp only: r_def of_nat_0_less_iff zero_less_diff)
  have ptp: "float_of_word (hi - lo) = r"
    using lo_le_hi by (simp add: float_of_word_exact[OF len] unat_sub r_def)
  have dpos: "0 < d" unfolding d_def by (rule fl64_pos) (use rpos in simp)
  have elem: "astype_uint8 ub (float_div (float_of_word (v - lo)) d)
              = word_of_int \<lfloor>fl64 (of_nat (unat v - unat lo) / d)\<rfloor>" if "v \<in> set xs" for v
  proof -
    have lv: "lo \<le> v" unfolding lo_def by (rule Min_le[OF fin that])
    have vh: "v \<le> hi" unfolding hi_def by (rule Max_ge[OF fin that])
    define x :: rat where "x = of_nat (unat v - unat lo)"
    have fw: "float_of_word (v - lo) = x"
      using lv by (simp add: float_of_word_exact[OF len] unat_sub x_def)
    have "unat v \<le> unat hi" using vh by (simp add: word_le_nat_alt)
    then have xr: "x \<le> r" by (simp add: x_def r_def diff_le_mono)
    have x0: "0 \<le> x" by (simp add: x_def)
    have q0: "0 \<le> fl64 (x / d)" and q1: "fl64 (x / d) < 256"
      unfolding d_def by (rule quotient_range[OF x0 xr rpos])+
    have "float_div x d = Finite (fl64 (x / d))"
      using dpos by (simp add: float_div_def)
    then show ?thesis
      using q0 q1 by (simp add: fw astype_uint8_def trunc_nonneg x_def)
  qed
  have "normalize_uint8 ub image_arr =
      Inr \<lparr>nd_shape = nd_shape image_arr,
           nd_data = map (\<lambda>v. astype_uint8 ub (float_div (float_of_word (v - lo)) d)) xs\<rparr>"
    using ne by (simp add: normalize_uint8_def np_min_eq np_ptp_eq Let_def xs_def lo_def hi_def ptp[unfolded lo_def hi_def xs_def] d_def)
  also have "map (\<lambda>v. astype_uint8 ub (float_div (float_of_word (v - lo)) d)) xs
           = map (\<lambda>v. word_of_int \<lfloor>fl64 (of_nat (unat v - unat lo) / d)\<rfloor>) xs"
    by (rule map_cong[OF refl]) (rule elem)
  finally show ?thesis by (simp only: xs_def lo_def hi_def d_def r_def)
qed

text \<open>
  The normalised volume of a volume with two different samples has the minimum 0; its
  maximum is 254 or 255, as the quotient of the largest sample falls below 255 or not.
\<close>

lemma quotient_top:
  assumes "0 < r"
  shows "254 \<le> fl64 (r / fl64 (r / 255))"
proof -
  define d where "d = fl64 (r / 255)"
  have rpos: "0 < r / 255" using assms by simp
  have dub: "d \<le> (r / 255) * (1001 / 1000)"
    unfolding d_def by (rule fl64_crude(2)[OF rpos])
  have dpos: "0 < d" unfolding d_def by (rule fl64_pos[OF rpos])
  define a where "a = r / d"
  have apos: "0 < a" using assms dpos by (simp add: a_def)
  have "(255000 / 1001) * d \<le> r" using dub by linarith
  then have "255000 / 1001 \<le> a" using dpos by (simp add: a_def pos_le_divide_eq)
  moreover have "a * (999 / 1000) \<le> fl64 a" by (rule fl64_crude(1)[OF apos])
  ultimately have "254 \<le> fl64 a" by linarith
  then show ?thesis by (simp only: a_def d_def)
qed

lemma uint8_top:
  fixes m :: uint8
  assumes "254 \<le> m"
  shows "m = 254 \<or> m = 255"
proof -
  from assms have "254 \<le> unat m" by (simp add: word_le_nat_alt)
  moreover have "unat m < 256" using unsigned_less[of m] by simp
  ultimately have c: "unat m = 254 \<or> unat m = 255" by linarith
  have m: "m = word_of_nat (unat m)" by simp
  from c show ?thesis
  proof
    assume "unat m = 254"
    with m have "m = word_of_nat 254" by (simp only:)
    then show ?thesis by simp
  next
    assume "unat m = 255"
    with m have "m = word_of_nat 255" by (simp only:)
    then show ?thesis by simp
  qed
qed

lemma normalize_extremes:
  fixes image_arr :: "uint16 ndarray"
  assumes ne: "nd_data image_arr \<noteq> []"
    and rng: "Min (set (nd_data image_arr)) \<noteq> Max (set (nd_data image_arr))"
    and out: "normalize_uint8 ub image_arr = Inr out"
  shows "Min (set (nd_data out)) = 0
       \<and> (Max (set (nd_data out)) = 254 \<or> Max (set (nd_data out)) = 255)"
proof -
  define xs where "xs = nd_data image_arr"
  define lo where "lo = Min (set xs)"
  define hi where "hi = Max (set xs)"
  define r :: rat where "r = of_nat (unat hi - unat lo)"
  define f :: "uint16 \<Rightarrow> uint8" where
    "f = (\<lambda>v. word_of_int \<lfloor>fl64 (of_nat (unat v - unat lo) / fl64 (r / 255))\<rfloor>)"
  have len: "LENGTH(16) \<le> (53::nat)" by simp
  from normalize_map[OF len ne rng, of ub] out
  have od: "nd_data out = map f xs"
    by (auto simp: f_def r_def lo_def hi_def xs_def)
  have fin: "finite (set xs)" by simp
  have nes: "set xs \<noteq> {}" using ne by (simp add: xs_def)
  have lo_in: "lo \<in> set xs" unfolding lo_def by (rule Min_in[OF fin nes])
  have hi_in: "hi \<in> set xs" unfolding hi_def by (rule Max_in[OF fin nes])
  have "lo \<le> hi" unfolding hi_def by (rule Max_ge[OF fin lo_in])
  with rng have "lo < hi" by (simp add: lo_def hi_def xs_def)
  then have "unat lo < unat hi" by (simp add: word_less_nat_alt)
  then have rpos: "0 < r" by (simp only: r_def of_nat_0_less_iff zero_less_diff)
  have "f lo = 0" by (simp add: f_def fl64_0)
  then have zero_in: "0 \<in> set (nd_data out)" using lo_in by (force simp: od)
  have "Min (set (nd_data out)) = 0"
    by (rule Min_eqI) (use zero_in in simp_all)
  moreover have "Max (set (nd_data out)) = 254 \<or> Max (set (nd_data out)) = 255"
  proof -
    have q1: "254 \<le> fl64 (r / fl64 (r / 255))" by (rule quotient_top[OF rpos])
    have q2: "fl64 (r / fl64 (r / 255)) < 256"
      by (rule quotient_range(2)[OF _ _ rpos]) (use rpos in simp_all)
    from q1 have "254 \<le> \<lfloor>fl64 (r / fl64 (r / 255))\<rfloor>" by (simp add: le_floor_iff)
    moreover from q2 have "\<lfloor>fl64 (r / fl64 (r / 255))\<rfloor> < 256" by (simp add: floor_less_iff)
    ultimately have "\<lfloor>fl64 (r / fl64 (r / 255))\<rfloor> = 254 \<or> \<lfloor>fl64 (r / fl64 (r / 255))\<rfloor> = 255"
      by linarith
    then have "f hi = 254 \<or> f hi = 255"
      unfolding f_def r_def by auto
    then have "254 \<le> f hi" by auto
    moreover have "f hi \<in> set (nd_data out)" using hi_in by (simp add: od)
    then have "f hi \<le> Max (set (nd_data out))" by simp
    ultimately have "254 \<le> Max (set (nd_data out))" by simp
    then show ?thesis by (rule uint8_top)
  qed
  ultimately show ?thesis by simp
qed

section \<open>Properties of the assembly\<close>

text \<open>
  The loops keep the shape and the number of cells of the buffers they fill; they raise
  nothing when every plane is there and its crop has the height and width of the block.
\<close>

lemma broadcast_to_length: "broadcast_to src h w = Inr blk \<Longrightarrow> length blk = h * w"
  by (auto simp: broadcast_to_def length_concat comp_def sum_list_triv split: if_splits)

lemma broadcast_to_same_shape:
  "nrows src = h \<Longrightarrow> ncols src = w \<Longrightarrow> \<exists>blk. broadcast_to src h w = Inr blk"
  by (simp add: broadcast_to_def)

lemma assign_block_length:
  "j * n + n \<le> length buf \<Longrightarrow> length blk = n \<Longrightarrow> length (assign_block buf j n blk) = length buf"
  by (simp add: assign_block_def)

lemma setitem_plane_keeps:
  assumes "setitem_plane h w a j src = Inr a'" and "j * (h * w) + h * w \<le> length (nd_data a)"
  shows "nd_shape a' = nd_shape a \<and> length (nd_data a') = length (nd_data a)"
  using assms
  by (auto simp: setitem_plane_def assign_block_length broadcast_to_length split: sum.splits)

lemma z_loop_keeps:
  assumes "z_loop img c t h w (y0, y1, x0, x1) js a = Inr a'"
    and "list_all (\<lambda>p. fst p * (h * w) + h * w \<le> length (nd_data a)) js"
  shows "nd_shape a' = nd_shape a \<and> length (nd_data a') = length (nd_data a)"
  using assms
proof (induction js arbitrary: a)
  case Nil
  then show ?case by simp
next
  case (Cons p js)
  obtain j z where p: "p = (j, z)" by (cases p)
  from Cons.prems(1) obtain ix mdimg a1 where
    a1: "setitem_plane h w a j (getitem2 mdimg y0 y1 x0 x1) = Inr a1"
    and rest: "z_loop img c t h w (y0, y1, x0, x1) js a1 = Inr a'"
    by (auto simp: p split: sum.splits)
  from Cons.prems(2) have bound: "j * (h * w) + h * w \<le> length (nd_data a)" by (simp add: p)
  from setitem_plane_keeps[OF a1 bound]
  have k1: "nd_shape a1 = nd_shape a" "length (nd_data a1) = length (nd_data a)" by simp_all
  from Cons.prems(2) have "list_all (\<lambda>p. fst p * (h * w) + h * w \<le> length (nd_data a1)) js"
    by (simp add: k1)
  from Cons.IH[OF rest this] show ?case by (simp add: k1)
qed

lemma enumerate_index_bound:
  assumes "n * m \<le> len" and "length xs \<le> n"
  shows "list_all (\<lambda>p. fst p * m + m \<le> len) (enumerate 0 xs)"
proof -
  have "fst p * m + m \<le> len" if "p \<in> set (enumerate 0 xs)" for p
  proof -
    from that have "fst p < length xs" by (simp add: in_set_enumerate_eq)
    with assms(2) have "Suc (fst p) \<le> n" by simp
    then have "Suc (fst p) * m \<le> n * m" by (rule mult_le_mono1)
    with assms(1) show ?thesis by simp
  qed
  then show ?thesis by (simp add: list_all_iff)
qed

lemma frame_loop_keeps:
  assumes "frame_loop junk img c (PyInt h) (PyInt w) rect is a = Inr a'"
    and "list_all (\<lambda>p. fst p * (length (zstacks img) * nat h * nat w)
                          + length (zstacks img) * nat h * nat w \<le> length (nd_data a)) is"
    and "0 \<le> h" and "0 \<le> w"
  shows "nd_shape a' = nd_shape a \<and> length (nd_data a') = length (nd_data a)"
  using assms(1,2)
proof (induction "is" arbitrary: a)
  case Nil
  then show ?case by simp
next
  case (Cons p "is")
  obtain i frame where p: "p = (i, frame)" by (cases p)
  obtain y0 y1 x0 x1 where rect: "rect = (y0, y1, x0, x1)" by (cases rect)
  define nz where "nz = length (zstacks img)"
  define img_z :: "uint16 ndarray" where
    "img_z = \<lparr>nd_shape = [nz, nat h, nat w], nd_data = replicate (nz * (nat h * nat w)) junk\<rparr>"
  have emp: "np_empty junk [PyInt (int nz), PyInt h, PyInt w] = Inr img_z"
    using assms(3,4) by (simp add: np_empty_def img_z_def)
  from Cons.prems(1) obtain img_z' where
    zl: "z_loop img c frame (nat h) (nat w) (y0, y1, x0, x1) (enumerate 0 (zstacks img)) img_z = Inr img_z'"
    and rest: "frame_loop junk img c (PyInt h) (PyInt w) rect is
                 (a\<lparr>nd_data := assign_block (nd_data a) i (nz * nat h * nat w) (nd_data img_z')\<rparr>) = Inr a'"
    by (auto simp: p rect emp nz_def[symmetric] split: sum.splits)
  have "list_all (\<lambda>p. fst p * (nat h * nat w) + nat h * nat w \<le> length (nd_data img_z))
          (enumerate 0 (zstacks img))"
    by (rule enumerate_index_bound[where n = nz]) (simp_all add: img_z_def nz_def)
  from z_loop_keeps[OF zl this] have lz: "length (nd_data img_z') = nz * nat h * nat w"
    by (simp add: img_z_def mult.assoc)
  from Cons.prems(2) have bound: "i * (nz * nat h * nat w) + nz * nat h * nat w \<le> length (nd_data a)"
    by (simp add: p nz_def)
  have la: "length (assign_block (nd_data a) i (nz * nat h * nat w) (nd_data img_z')) = length (nd_data a)"
    by (rule assign_block_length[OF bound lz])
  from Cons.prems(2) have
    "list_all (\<lambda>p. fst p * (length (zstacks img) * nat h * nat w)
                     + length (zstacks img) * nat h * nat w
                   \<le> length (nd_data (a\<lparr>nd_data := assign_block (nd_data a) i (nz * nat h * nat w)
                                                     (nd_data img_z')\<rparr>))) is"
    by (simp add: la)
  from Cons.IH[OF rest this] show ?case by (simp add: la)
qed

lemma getitem2_shape:
  assumes "0 \<le> y0" "y0 \<le> y1" "y1 \<le> int (nrows p)" "0 \<le> x0" "x0 \<le> x1" "x1 \<le> int (ncols p)"
  shows "nrows (getitem2 p y0 y1 x0 x1) = nat (y1 - y0)"
    and "ncols (getitem2 p y0 y1 x0 x1) = nat (x1 - x0)"
proof -
  have "slice_bound y0 (nrows p) = nat y0" "slice_bound y1 (nrows p) = nat y1"
    "slice_bound x0 (ncols p) = nat x0" "slice_bound x1 (ncols p) = nat x1"
    using assms by (auto simp: slice_bound_def min_def)
  then show "nrows (getitem2 p y0 y1 x0 x1) = nat (y1 - y0)"
    and "ncols (getitem2 p y0 y1 x0 x1) = nat (x1 - x0)"
    using assms by (simp_all add: getitem2_def Let_def nat_diff_distrib)
qed

lemma z_loop_total:
  assumes "\<forall>z\<in>set (map snd js). \<exists>ix p. ix_at img c z t = Inr ix \<and> image_plane img ix = Inr p
             \<and> nrows (getitem2 p y0 y1 x0 x1) = h \<and> ncols (getitem2 p y0 y1 x0 x1) = w"
  shows "\<exists>a'. z_loop img c t h w (y0, y1, x0, x1) js a = Inr a'"
  using assms
proof (induction js arbitrary: a)
  case Nil
  then show ?case by simp
next
  case (Cons q js)
  obtain j z where q: "q = (j, z)" by (cases q)
  from Cons.prems obtain ix p where
    ix: "ix_at img c z t = Inr ix" and pl: "image_plane img ix = Inr p"
    and sh: "nrows (getitem2 p y0 y1 x0 x1) = h" "ncols (getitem2 p y0 y1 x0 x1) = w"
    by (auto simp: q)
  from broadcast_to_same_shape[OF sh] obtain blk where
    blk: "broadcast_to (getitem2 p y0 y1 x0 x1) h w = Inr blk" ..
  from Cons.prems have "\<forall>z\<in>set (map snd js). \<exists>ix p. ix_at img c z t = Inr ix \<and> image_plane img ix = Inr p
             \<and> nrows (getitem2 p y0 y1 x0 x1) = h \<and> ncols (getitem2 p y0 y1 x0 x1) = w"
    by simp
  from Cons.IH[OF this] show ?case
    by (simp add: q ix pl setitem_plane_def blk)
qed

lemma frame_loop_total:
  assumes "\<forall>t\<in>set (map snd is). \<forall>z\<in>set (zstacks img).
             \<exists>ix p. ix_at img c z t = Inr ix \<and> image_plane img ix = Inr p
             \<and> nrows (getitem2 p y0 y1 x0 x1) = nat h \<and> ncols (getitem2 p y0 y1 x0 x1) = nat w"
    and "0 \<le> h" and "0 \<le> w"
  shows "\<exists>a'. frame_loop junk img c (PyInt h) (PyInt w) (y0, y1, x0, x1) is a = Inr a'"
  using assms(1)
proof (induction "is" arbitrary: a)
  case Nil
  then show ?case by simp
next
  case (Cons q "is")
  obtain i frame where q: "q = (i, frame)" by (cases q)
  define img_z :: "uint16 ndarray" where
    "img_z = \<lparr>nd_shape = [length (zstacks img), nat h, nat w],
              nd_data = replicate (length (zstacks img) * (nat h * nat w)) junk\<rparr>"
  have emp: "np_empty junk [PyInt (int (length (zstacks img))), PyInt h, PyInt w] = Inr img_z"
    using assms(2,3) by (simp add: np_empty_def img_z_def)
  from Cons.prems have "\<forall>z\<in>set (map snd (enumerate 0 (zstacks img))).
       \<exists>ix p. ix_at img c z frame = Inr ix \<and> image_plane img ix = Inr p
             \<and> nrows (getitem2 p y0 y1 x0 x1) = nat h \<and> ncols (getitem2 p y0 y1 x0 x1) = nat w"
    by (simp add: q enumerate_eq_zip)
  from z_loop_total[OF this] obtain img_z' where
    zl: "z_loop img c frame (nat h) (nat w) (y0, y1, x0, x1) (enumerate 0 (zstacks img)) img_z = Inr img_z'"
    by blast
  from Cons.prems have "\<forall>t\<in>set (map snd is). \<forall>z\<in>set (zstacks img).
             \<exists>ix p. ix_at img c z t = Inr ix \<and> image_plane img ix = Inr p
             \<and> nrows (getitem2 p y0 y1 x0 x1) = nat h \<and> ncols (getitem2 p y0 y1 x0 x1) = nat w"
    by simp
  from Cons.IH[OF this] show ?case
    by (simp add: q emp zl)
qed

lemma normalize_keeps:
  "normalize_uint8 ub a = Inr out \<Longrightarrow> nd_shape out = nd_shape a \<and> length (nd_data out) = length (nd_data a)"
  by (auto simp: normalize_uint8_def Let_def split: sum.splits)

lemma normalize_total: "nd_data a \<noteq> [] \<Longrightarrow> \<exists>out. normalize_uint8 ub a = Inr out"
  by (cases "nd_data a") (simp_all add: normalize_uint8_def np_min_def np_ptp_def Let_def)

lemma assemble_total:
  assumes planes: "\<forall>t\<in>set frames. \<forall>z\<in>set (zstacks img).
             \<exists>ix p. ix_at img c z t = Inr ix \<and> image_plane img ix = Inr p
             \<and> nrows (getitem2 p y0 y1 x0 x1) = nat h \<and> ncols (getitem2 p y0 y1 x0 x1) = nat w"
    and crop: "crop_rect img roi = (PyInt w, PyInt h, y0, y1, x0, x1)"
    and pos: "0 < h" "0 < w" "frames \<noteq> []" "zstacks img \<noteq> []"
  shows "\<exists>vol. bioformats_to_ndarray_zstack_timeseries rt img frames roi c = Inr vol
           \<and> nd_shape vol = [length frames, length (zstacks img), nat h, nat w]
           \<and> wf_ndarray vol"
proof -
  define n where "n = length frames"
  define nz where "nz = length (zstacks img)"
  define image0 :: "uint16 ndarray" where
    "image0 = \<lparr>nd_shape = [n, nz, nat h, nat w],
               nd_data = replicate (n * (nz * (nat h * nat w))) (uninit rt)\<rparr>"
  have emp: "np_empty (uninit rt) [PyInt (int n), PyInt (int nz), PyInt h, PyInt w] = Inr image0"
    using pos by (simp add: np_empty_def image0_def)
  have "\<forall>t\<in>set (map snd (enumerate 0 frames)). \<forall>z\<in>set (zstacks img).
             \<exists>ix p. ix_at img c z t = Inr ix \<and> image_plane img ix = Inr p
             \<and> nrows (getitem2 p y0 y1 x0 x1) = nat h \<and> ncols (getitem2 p y0 y1 x0 x1) = nat w"
    using planes by (simp add: enumerate_eq_zip)
  from frame_loop_total[OF this, of "uninit rt" image0] pos obtain image1 where
    fl: "frame_loop (uninit rt) img c (PyInt h) (PyInt w) (y0, y1, x0, x1) (enumerate 0 frames) image0
           = Inr image1"
    by auto
  have "list_all (\<lambda>p. fst p * (length (zstacks img) * nat h * nat w)
                          + length (zstacks img) * nat h * nat w \<le> length (nd_data image0))
          (enumerate 0 frames)"
    by (rule enumerate_index_bound[where n = n]) (simp_all add: image0_def n_def nz_def mult.assoc)
  from frame_loop_keeps[OF fl this] pos
  have k1: "nd_shape image1 = [n, nz, nat h, nat w]"
    "length (nd_data image1) = n * (nz * (nat h * nat w))"
    by (simp_all add: image0_def)
  have "0 < n * (nz * (nat h * nat w))" using pos by (simp add: n_def nz_def)
  then have "nd_data image1 \<noteq> []" using k1(2) by auto
  from normalize_total[OF this] obtain vol where
    nv: "normalize_uint8 (undefined_cast rt) image1 = Inr vol" ..
  from normalize_keeps[OF nv] k1 have
    "nd_shape vol = [n, nz, nat h, nat w]" "wf_ndarray vol"
    by (simp_all add: wf_ndarray_def)
  moreover have "bioformats_to_ndarray_zstack_timeseries rt img frames roi c = Inr vol"
    by (simp add: bioformats_to_ndarray_zstack_timeseries_def crop emp[unfolded n_def nz_def] fl nv)
  ultimately show ?thesis by (simp add: n_def nz_def)
qed

lemma serves_plane:
  assumes "serves img frames c" and "t \<in> set frames" and "z \<in> set (zstacks img)"
  shows "\<exists>ix p. ix_at img c z t = Inr ix \<and> image_plane img ix = Inr p
           \<and> nrows p = nat (height img) \<and> ncols p = nat (width img)"
proof -
  from assms have "case plane_at img c z t of Inl _ \<Rightarrow> False
      | Inr p \<Rightarrow> nrows p = nat (height img) \<and> ncols p = nat (width img)"
    by (auto simp: serves_def list_all_iff)
  then obtain p where p: "plane_at img c z t = Inr p"
    "nrows p = nat (height img)" "ncols p = nat (width img)"
    by (cases "plane_at img c z t") auto
  from p(1) obtain ix where "ix_at img c z t = Inr ix" "image_plane img ix = Inr p"
    unfolding plane_at_def by (cases "ix_at img c z t") auto
  with p(2,3) show ?thesis by blast
qed

lemma is_float_py_sub [simp]: "is_float (py_sub a b) = (is_float a \<or> is_float b)"
  by (cases a; cases b) simp_all

lemma is_float_py_abs [simp]: "is_float (py_abs a) = is_float a"
  by (cases a) simp_all

lemma float_roi_raises:
  assumes "is_float (roi_left r) \<or> is_float (roi_right r) \<or> is_float (roi_top r) \<or> is_float (roi_bottom r)"
  shows "bioformats_to_ndarray_zstack_timeseries rt img frames (Some r) c = Inl TypeError"
  using assms
  by (auto simp: bioformats_to_ndarray_zstack_timeseries_def crop_rect_def Let_def np_empty_def)


lemma serves_example: "serves example_source [0, 1] 0"
  by (simp add: serves_def plane_at_def example_source_def)

text \<open>
  Whenever the assembler returns an array, its shape is the one of line 43. An integer
  ROI that reaches beyond the plane makes the assignment of line 50 raise.
\<close>

lemma np_empty_Inr:
  assumes "np_empty junk [PyInt a, PyInt b, h, w] = Inr arr"
  shows "\<exists>hi wi. h = PyInt hi \<and> w = PyInt wi \<and> 0 \<le> hi \<and> 0 \<le> wi \<and> 0 \<le> a \<and> 0 \<le> b
           \<and> arr = \<lparr>nd_shape = [nat a, nat b, nat hi, nat wi],
                     nd_data = replicate (nat a * (nat b * (nat hi * nat wi))) junk\<rparr>"
proof -
  from assms have nf: "\<not> is_float h" "\<not> is_float w"
    by (auto simp: np_empty_def split: if_splits)
  then obtain hi wi where hw: "h = PyInt hi" "w = PyInt wi"
    by (cases h; cases w) auto
  with assms show ?thesis
    by (auto simp: np_empty_def split: if_splits)
qed

lemma assembled_returns_shape:
  assumes "bioformats_to_ndarray_zstack_timeseries rt img frames roi c = Inr vol"
    and crop: "crop_rect img roi = (w, h, rect)"
  shows "nd_shape vol = [length frames, length (zstacks img), nat (py_int h), nat (py_int w)]
       \<and> wf_ndarray vol"
proof -
  from assms obtain image0 image1 where
    emp: "np_empty (uninit rt) [PyInt (int (length frames)), PyInt (int (length (zstacks img))), h, w]
           = Inr image0"
    and fl: "frame_loop (uninit rt) img c h w rect (enumerate 0 frames) image0 = Inr image1"
    and nv: "normalize_uint8 (undefined_cast rt) image1 = Inr vol"
    by (auto simp: bioformats_to_ndarray_zstack_timeseries_def split: sum.splits)
  from np_empty_Inr[OF emp] obtain hi wi where
    hw: "h = PyInt hi" "w = PyInt wi" "0 \<le> hi" "0 \<le> wi"
    and i0: "image0 = \<lparr>nd_shape = [length frames, length (zstacks img), nat hi, nat wi],
                       nd_data = replicate (length frames * (length (zstacks img) * (nat hi * nat wi)))
                                   (uninit rt)\<rparr>"
    by auto
  have "list_all (\<lambda>p. fst p * (length (zstacks img) * nat hi * nat wi)
                          + length (zstacks img) * nat hi * nat wi \<le> length (nd_data image0))
          (enumerate 0 frames)"
    by (rule enumerate_index_bound[where n = "length frames"]) (simp_all add: i0 mult.assoc)
  from frame_loop_keeps[OF fl[unfolded hw] this hw(3,4)]
  have k1: "nd_shape image1 = [length frames, length (zstacks img), nat hi, nat wi]"
    "length (nd_data image1) = length frames * (length (zstacks img) * (nat hi * nat wi))"
    by (simp_all add: i0)
  from normalize_keeps[OF nv] k1 show ?thesis
    by (simp add: wf_ndarray_def hw)
qed

lemma integer_roi_returns_shape:
  assumes "bioformats_to_ndarray_zstack_timeseries rt img frames
             (Some \<lparr>roi_left = PyInt l, roi_right = PyInt r, roi_top = PyInt t,
                    roi_bottom = PyInt b, t_position = tp\<rparr>) c = Inr vol"
  shows "nd_shape vol = [length frames, length (zstacks img), nat \<bar>t - b\<bar>, nat \<bar>r - l\<bar>]"
proof -
  have "crop_rect img (Some \<lparr>roi_left = PyInt l, roi_right = PyInt r, roi_top = PyInt t,
                    roi_bottom = PyInt b, t_position = tp\<rparr>)
        = (PyInt \<bar>r - l\<bar>, PyInt \<bar>t - b\<bar>, t, t + \<bar>t - b\<bar>, l, l + \<bar>r - l\<bar>)"
    by (simp add: crop_rect_def Let_def)
  from assembled_returns_shape[OF assms this] show ?thesis by simp
qed

lemma assembled_returns_4d:
  assumes "bioformats_to_ndarray_zstack_timeseries rt img frames roi c = Inr vol"
  shows "\<exists>h w. nd_shape vol = [length frames, length (zstacks img), h, w] \<and> wf_ndarray vol"
proof -
  obtain w h rect where "crop_rect img roi = (w, h, rect)" by (cases "crop_rect img roi")
  from assembled_returns_shape[OF assms this] show ?thesis by blast
qed

lemma roi_outside_raises:
  "bioformats_to_ndarray_zstack_timeseries example_runtime example_source [0, 1]
     (Some \<lparr>roi_left = PyInt 2, roi_right = PyInt 6, roi_top = PyInt 1,
            roi_bottom = PyInt 3, t_position = 0\<rparr>) 0 = Inl ValueError"
  by (simp add: bioformats_to_ndarray_zstack_timeseries_def crop_rect_def Let_def np_empty_def
      example_source_def example_runtime_def setitem_plane_def broadcast_to_def getitem2_def
      slice_bound_def)

section \<open>Properties of the writer\<close>

lemma save_is_update_after_remove:
  "save_vtk_image_to_disk writer_update vtk_image filename fs
     = writer_update vtk_image filename (fs(filename := None))"
proof -
  have "fs filename = None \<Longrightarrow> fs(filename := None) = fs" by (rule fun_upd_idem)
  then show ?thesis by (auto simp: save_vtk_image_to_disk_def Let_def)
qed

lemma creates_files_save:
  assumes "creates_files writer_update ser"
  shows "save_vtk_image_to_disk writer_update vtk_image filename fs = fs(filename \<mapsto> ser vtk_image)"
proof -
  have "(fs(filename := None)) filename = None" by simp
  with assms have "writer_update vtk_image filename (fs(filename := None))
      = (fs(filename := None))(filename \<mapsto> ser vtk_image)"
    unfolding creates_files_def by blast
  then show ?thesis by (simp only: save_is_update_after_remove fun_upd_upd)
qed

lemma creates_files_appending: "creates_files (appending_writer ser) ser"
  by (simp add: creates_files_def appending_writer_def)

lemma creates_files_complete: "creates_files (complete_writer ser) ser"
  by (simp add: creates_files_def complete_writer_def)

section \<open>Properties of the configuration reader\<close>

lemma optionxform_names:
  "optionxform ''ROI'' = ''roi''" "optionxform ''series'' = ''series''"
  "optionxform ''frame'' = ''frame''" "optionxform ''channel'' = ''channel''"
  "optionxform ''image'' = ''image''" "optionxform ''um_per_z'' = ''um_per_z''"
  by (simp_all add: optionxform_def ascii_lower_def)

lemma Path_absolute_roi: "Path ''/data/cell.roi'' = [''/'', ''data'', ''cell.roi'']"
  by (simp add: Path_def root_of_def)

lemma Path_relative_roi: "Path ''cell.roi'' = [''cell.roi'']"
  by (simp add: Path_def root_of_def)

lemma process_roi_path_absolute:
  assumes "data ''roi'' = Some s" and "is_absolute (Path s)"
  shows "process_roi_path env cfg_path data im_frame = Inr (None, im_frame)"
  using assms by (simp add: process_roi_path_def get_option_def optionxform_names)

lemma process_roi_path_relative:
  assumes "data ''roi'' = Some s" and "\<not> is_absolute (Path s)"
    and "ImagejRoi_fromfile env (joinpath (parent cfg_path) (Path s)) = Inr roi"
  shows "process_roi_path env cfg_path data im_frame = Inr (Some roi, Number (t_position roi))"
  using assms by (simp add: process_roi_path_def get_option_def optionxform_names)

lemma read_config_relative_roi:
  assumes "load_project_file env cfg_path ''DATA'' = Some data"
    and "data ''roi'' = Some s" and "\<not> is_absolute (Path s)"
    and "read_config env cfg_path = Inr cfg"
  shows "\<exists>roi. ImagejRoi_fromfile env (joinpath (parent cfg_path) (Path s)) = Inr roi
           \<and> ec_roi cfg = Some roi \<and> ec_frames cfg = [t_position roi]"
  using assms
  by (auto simp: read_config_def process_roi_path_def selection_def int_of_setting_def
      get_option_def optionxform_names split: option.splits sum.splits if_splits)

lemma read_config_absolute_roi_general:
  assumes "load_project_file env cfg_path ''DATA'' = Some data"
    and "data ''roi'' = Some s" and "is_absolute (Path s)"
    and "read_config env cfg_path = Inr cfg"
  shows "ec_roi cfg = None"
  using assms
  by (auto simp: read_config_def process_roi_path_def get_option_def optionxform_names
      split: option.splits sum.splits if_splits)

lemma read_config_relative_example:
  "map_sum id (\<lambda>cfg. (ec_roi cfg, ec_frames cfg))
     (read_config
        (example_env [(''series'', ''0''), (''frame'', ''1''), (''channel'', ''0''),
                      (''image'', ''img.tif''), (''ROI'', ''cell.roi'')])
        [''example.cfg''])
   = Inr (Some example_roi, [0])"
  by (simp add: read_config_def example_env_def process_roi_path_def Path_relative_roi
      get_option_def optionxform_names is_absolute_def is_root_def joinpath_def parent_def
      selection_def int_of_setting_def example_source_def py_range_def example_roi_def)

section \<open>Properties of the file names\<close>

text \<open>
  A formatted number reads back as the number, and it has no slash. So the file of a
  channel and a frame is the configuration's directory followed by three parts, and
  different channels or frames have different files.
\<close>

lemma of_char_digit: "d < 10 \<Longrightarrow> of_char (digit d) = 48 + d"
  by (simp add: digit_def)

lemma digit_not_slash: "d < 10 \<Longrightarrow> digit d \<noteq> CHR ''/''"
proof
  assume "d < 10" "digit d = CHR ''/''"
  then have "(of_char (digit d) :: nat) = of_char CHR ''/''" by simp
  with \<open>d < 10\<close> show False by (simp add: of_char_digit)
qed

lemma digit_not_minus: "d < 10 \<Longrightarrow> digit d \<noteq> CHR ''-''"
proof
  assume "d < 10" "digit d = CHR ''-''"
  then have "(of_char (digit d) :: nat) = of_char CHR ''-''" by simp
  with \<open>d < 10\<close> show False by (simp add: of_char_digit)
qed

lemma digits_small: "n < 10 \<Longrightarrow> digits n = [digit n]"
  by (subst digits.simps) simp

lemma digits_large: "\<not> n < 10 \<Longrightarrow> digits n = digits (n div 10) @ [digit (n mod 10)]"
  by (subst digits.simps) simp

lemma digits_chars: "c \<in> set (digits n) \<Longrightarrow> \<exists>d<10. c = digit d"
proof (induction n rule: digits.induct)
  case (1 n)
  show ?case
  proof (cases "n < 10")
    case True
    with "1.prems" show ?thesis by (auto simp: digits_small)
  next
    case False
    with "1.prems" have "c \<in> set (digits (n div 10)) \<or> c = digit (n mod 10)"
      by (auto simp: digits_large)
    then show ?thesis
    proof
      assume "c \<in> set (digits (n div 10))"
      with "1.IH"[OF False] show ?thesis .
    next
      assume "c = digit (n mod 10)"
      then show ?thesis by (intro exI[of _ "n mod 10"]) simp
    qed
  qed
qed

lemma digits_nonempty: "digits n \<noteq> []"
  by (cases "n < 10") (simp_all add: digits_small digits_large)


lemma digit_value_digit: "d < 10 \<Longrightarrow> digit_value (digit d) = d"
  by (simp add: digit_value_def of_char_digit)

lemma decimal_value_snoc: "decimal_value (s @ [c]) = 10 * decimal_value s + digit_value c"
  by (simp add: decimal_value_def)

lemma decimal_value_digits: "decimal_value (digits n) = n"
proof (induction n rule: digits.induct)
  case (1 n)
  show ?case
  proof (cases "n < 10")
    case True
    then show ?thesis by (simp add: digits_small decimal_value_def digit_value_digit)
  next
    case False
    with "1.IH" have "decimal_value (digits (n div 10)) = n div 10" by simp
    then show ?thesis
      using False by (simp add: digits_large decimal_value_snoc digit_value_digit)
  qed
qed

lemma decimal_value_zeros: "decimal_value (replicate k CHR ''0'' @ s) = decimal_value s"
proof (induction k)
  case 0
  then show ?case by simp
next
  case (Suc k)
  then show ?case by (simp add: decimal_value_def digit_value_def)
qed

lemma decimal_value_zero_pad: "decimal_value (zero_pad k (digits n)) = n"
  by (simp add: zero_pad_def decimal_value_zeros decimal_value_digits)

lemma zero_pad_chars: "c \<in> set (zero_pad k (digits n)) \<Longrightarrow> \<exists>d<10. c = digit d"
proof -
  assume "c \<in> set (zero_pad k (digits n))"
  then have "c = CHR ''0'' \<or> c \<in> set (digits n)"
    by (auto simp: zero_pad_def)
  then show ?thesis
  proof
    assume "c = CHR ''0''"
    moreover have "(of_char (digit 0) :: nat) = of_char CHR ''0''" by (simp add: of_char_digit)
    ultimately have "c = digit 0" by (simp only: of_char_eq_iff)
    then show ?thesis by (intro exI[of _ 0]) simp
  next
    assume "c \<in> set (digits n)"
    then show ?thesis by (rule digits_chars)
  qed
qed

lemma zero_pad_nonempty: "zero_pad k (digits n) \<noteq> []"
  by (simp add: zero_pad_def digits_nonempty)

lemma signed_value_format_d: "signed_value (format_d k n) = n"
proof (cases "n < 0")
  case True
  then show ?thesis
    by (simp add: format_d_def signed_value_def decimal_value_zero_pad)
next
  case False
  obtain c r where cr: "zero_pad k (digits (nat n)) = c # r"
    using zero_pad_nonempty[of k "nat n"] by (cases "zero_pad k (digits (nat n))") auto
  then have "c \<in> set (zero_pad k (digits (nat n)))" by simp
  from zero_pad_chars[OF this] obtain d where "d < 10" "c = digit d" by blast
  then have "c \<noteq> CHR ''-''" by (simp add: digit_not_minus)
  then have "signed_value (c # r) = int (decimal_value (c # r))"
    by (simp add: signed_value_def)
  then have sv: "signed_value (zero_pad k (digits (nat n)))
             = int (decimal_value (zero_pad k (digits (nat n))))"
    by (simp only: cr)
  have fd: "format_d k n = zero_pad k (digits (nat n))"
    using False by (simp only: format_d_def if_False)
  have "int (decimal_value (zero_pad k (digits (nat n)))) = int (nat n)"
    by (simp only: decimal_value_zero_pad)
  also have "\<dots> = n" using False by simp
  finally show ?thesis by (simp only: fd sv)
qed

lemma format_d_inj:
  assumes "format_d k n = format_d k m"
  shows "n = m"
proof -
  have "n = signed_value (format_d k n)" by (simp only: signed_value_format_d)
  also have "\<dots> = signed_value (format_d k m)" by (simp only: assms)
  also have "\<dots> = m" by (simp only: signed_value_format_d)
  finally show ?thesis .
qed

lemma format_d_no_slash: "CHR ''/'' \<notin> set (format_d k n)"
proof
  assume a: "CHR ''/'' \<in> set (format_d k n)"
  have "\<exists>d<10. CHR ''/'' = digit d"
  proof (cases "n < 0")
    case True
    with a have "CHR ''/'' \<in> set (zero_pad (k - 1) (digits (nat (- n))))"
      by (simp add: format_d_def)
    then show ?thesis by (rule zero_pad_chars)
  next
    case False
    with a have "CHR ''/'' \<in> set (zero_pad k (digits (nat n)))"
      by (simp add: format_d_def)
    then show ?thesis by (rule zero_pad_chars)
  qed
  then show False using digit_not_slash by metis
qed

lemma split_slash_no_slash: "CHR ''/'' \<notin> set s \<Longrightarrow> split_slash s = [s]"
  by (induction s) auto

lemma Path_single:
  assumes "CHR ''/'' \<notin> set s" and "s \<noteq> []" and "s \<noteq> ''.''"
  shows "Path s = [s]"
  using assms by (cases s) (auto simp: Path_def root_of_def split_slash_no_slash)

lemma joinpath_single: "\<not> is_root s \<Longrightarrow> joinpath p [s] = p @ [s]"
  by (simp add: joinpath_def is_absolute_def)

lemma vdb_file_parts:
  "vdb_file (export_dir cfg_path ch) ch fr =
     parent cfg_path @ [''openvdb'', ''ch'' @ format_d 1 ch,
                        ''vol_ch'' @ format_d 1 ch @ ''_fr'' @ format_d 3 (int fr) @ ''.vdb'']"
proof -
  have p1: "Path ''openvdb'' = [''openvdb'']" by (simp add: Path_def root_of_def)
  have p2: "Path (''ch'' @ format_d 1 ch) = [''ch'' @ format_d 1 ch]"
    by (rule Path_single) (simp_all add: format_d_no_slash)
  have p3: "Path (''vol_ch'' @ format_d 1 ch @ ''_fr'' @ format_d 3 (int fr) @ ''.vdb'')
            = [''vol_ch'' @ format_d 1 ch @ ''_fr'' @ format_d 3 (int fr) @ ''.vdb'']"
    by (rule Path_single) (simp_all add: format_d_no_slash)
  show ?thesis
    unfolding vdb_file_def export_dir_def ensure_dir_def p1 p2 p3
    by (simp add: joinpath_def is_absolute_def is_root_def)
qed

lemma vdb_file_inj:
  assumes "vdb_file (export_dir cfg_path ch) ch fr = vdb_file (export_dir cfg_path ch') ch' fr'"
  shows "ch = ch' \<and> fr = fr'"
proof -
  from assms have e1: "''ch'' @ format_d 1 ch = ''ch'' @ format_d 1 ch'"
    and e2: "''vol_ch'' @ format_d 1 ch @ ''_fr'' @ format_d 3 (int fr) @ ''.vdb''
             = ''vol_ch'' @ format_d 1 ch' @ ''_fr'' @ format_d 3 (int fr') @ ''.vdb''"
    unfolding vdb_file_parts by blast+
  from e1 have e1': "format_d 1 ch = format_d 1 ch'" by (simp only: same_append_eq)
  then have "ch = ch'" by (rule format_d_inj)
  moreover from e2 have "format_d 3 (int fr) = format_d 3 (int fr')"
    unfolding e1' by (simp only: same_append_eq append_same_eq)
  then have "int fr = int fr'" by (rule format_d_inj)
  ultimately show ?thesis by simp
qed

section \<open>Properties of the export driver\<close>

text \<open>
  With a VDB writer that completes. Two runs that differ in the selected frames agree
  on the file of a frame that both select (\<open>channels_loop_agree\<close>). After a run without
  exception the file of a selected frame of a configured channel holds that frame's
  encoded sub-volume (\<open>channels_loop_at\<close>). The file of a frame that is not selected is
  left as it was (\<open>channels_loop_unselected\<close>).
\<close>

lemma iter_first_axis_4d:
  assumes "nd_shape vol = [n, nz, h, w]"
  shows "iter_first_axis vol
         = Inr (map (\<lambda>i. \<lparr>nd_shape = [nz, h, w], nd_data = block (nd_data vol) i (nz * (h * w))\<rparr>)
                    [0..<n])"
  using assms by (simp add: iter_first_axis_def)

lemma encode_3d:
  assumes "nd_shape v = [nz, h, w]"
  shows "\<exists>vtkim. ndarray_to_vtk_image v a b = Inr vtkim"
  using assms by (simp add: ndarray_to_vtk_image_def Let_def)

lemma save_complete:
  "save_vtk_image_to_disk (complete_writer ser) vtkim p fs = fs(p \<mapsto> ser vtkim)"
  by (rule creates_files_save[OF creates_files_complete])

lemma frames_loop_agree:
  assumes enc: "list_all (\<lambda>q. \<exists>vtkim. ndarray_to_vtk_image (snd q) (um_per_pix (ec_image_file cfg))
                                   (ec_um_per_z cfg) = Inr vtkim) vs"
    and agree: "fs1 p = fs2 p"
    and sel: "list_all (\<lambda>q. (int (fst q) \<in> set (ec_frames cfg) \<longleftrightarrow> int (fst q) \<in> set F)
                            \<or> vdb_file ep ch (fst q) \<noteq> p) vs"
  shows "snd (frames_loop (complete_writer ser) cfg ep ch vs fs1) = None
       \<and> snd (frames_loop (complete_writer ser) (cfg\<lparr>ec_frames := F\<rparr>) ep ch vs fs2) = None
       \<and> fst (frames_loop (complete_writer ser) cfg ep ch vs fs1) p
         = fst (frames_loop (complete_writer ser) (cfg\<lparr>ec_frames := F\<rparr>) ep ch vs fs2) p"
  using assms
proof (induction vs arbitrary: fs1 fs2)
  case Nil
  then show ?case by simp
next
  case (Cons q vs)
  obtain fr' v where q: "q = (fr', v)" by (cases q)
  from Cons.prems(1) obtain vtkim where
    e: "ndarray_to_vtk_image v (um_per_pix (ec_image_file cfg)) (ec_um_per_z cfg) = Inr vtkim"
    by (auto simp: q)
  from Cons.prems(1) have enc': "list_all (\<lambda>q. \<exists>vtkim. ndarray_to_vtk_image (snd q)
      (um_per_pix (ec_image_file cfg)) (ec_um_per_z cfg) = Inr vtkim) vs" by simp
  from Cons.prems(3) have sel': "list_all (\<lambda>q. (int (fst q) \<in> set (ec_frames cfg) \<longleftrightarrow> int (fst q) \<in> set F)
                            \<or> vdb_file ep ch (fst q) \<noteq> p) vs" by simp
  from Cons.prems(3) have here: "(int fr' \<in> set (ec_frames cfg) \<longleftrightarrow> int fr' \<in> set F)
                            \<or> vdb_file ep ch fr' \<noteq> p" by (simp add: q)
  define g1 where "g1 = (if int fr' \<in> set (ec_frames cfg)
                         then fs1(vdb_file ep ch fr' \<mapsto> ser vtkim) else fs1)"
  define g2 where "g2 = (if int fr' \<in> set F
                         then fs2(vdb_file ep ch fr' \<mapsto> ser vtkim) else fs2)"
  have "g1 p = g2 p" using here Cons.prems(2) by (auto simp: g1_def g2_def)
  from Cons.IH[of g1 g2, OF enc' this sel'] have
    ih: "snd (frames_loop (complete_writer ser) cfg ep ch vs g1) = None
       \<and> snd (frames_loop (complete_writer ser) (cfg\<lparr>ec_frames := F\<rparr>) ep ch vs g2) = None
       \<and> fst (frames_loop (complete_writer ser) cfg ep ch vs g1) p
         = fst (frames_loop (complete_writer ser) (cfg\<lparr>ec_frames := F\<rparr>) ep ch vs g2) p" .
  have s1: "frames_loop (complete_writer ser) cfg ep ch (q # vs) fs1
            = frames_loop (complete_writer ser) cfg ep ch vs g1"
    by (simp add: q e save_complete g1_def)
  have s2: "frames_loop (complete_writer ser) (cfg\<lparr>ec_frames := F\<rparr>) ep ch (q # vs) fs2
            = frames_loop (complete_writer ser) (cfg\<lparr>ec_frames := F\<rparr>) ep ch vs g2"
    by (simp add: q e save_complete g2_def)
  show ?case unfolding s1 s2 by (rule ih)
qed

lemma enumerate_encodable:
  assumes "nd_shape vol = [n, nz, h, w]"
  shows "list_all (\<lambda>q. \<exists>vtkim. ndarray_to_vtk_image (snd q) a b = Inr vtkim)
           (enumerate k (map (\<lambda>i. \<lparr>nd_shape = [nz, h, w],
                                     nd_data = block (nd_data vol) i (nz * (h * w))\<rparr>) [0..<n]))"
proof -
  have "\<exists>vtkim. ndarray_to_vtk_image (snd q) a b = Inr vtkim"
    if "q \<in> set (enumerate k (map (\<lambda>i. \<lparr>nd_shape = [nz, h, w],
                                     nd_data = block (nd_data vol) i (nz * (h * w))\<rparr>) [0..<n]))" for q
  proof -
    from that have "fst q - k < n"
      and "map (\<lambda>i. \<lparr>nd_shape = [nz, h, w],
                        nd_data = block (nd_data vol) i (nz * (h * w))\<rparr>) [0..<n] ! (fst q - k) = snd q"
      by (auto simp: in_set_enumerate_eq)
    then have "snd q = \<lparr>nd_shape = [nz, h, w],
                        nd_data = block (nd_data vol) (fst q - k) (nz * (h * w))\<rparr>"
      by simp
    then have "nd_shape (snd q) = [nz, h, w]" by simp
    then show ?thesis by (rule encode_3d)
  qed
  then show ?thesis by (simp add: list_all_iff)
qed

lemma channels_loop_agree:
  assumes agree: "fs1 p = fs2 p"
    and p: "p = vdb_file (export_dir cfg_path ch) ch fr"
    and sel: "int fr \<in> set (ec_frames cfg)" "int fr \<in> set F"
  shows "snd (channels_loop rt (complete_writer ser) cfg cfg_path chs fs1)
         = snd (channels_loop rt (complete_writer ser) (cfg\<lparr>ec_frames := F\<rparr>) cfg_path chs fs2)
       \<and> fst (channels_loop rt (complete_writer ser) cfg cfg_path chs fs1) p
         = fst (channels_loop rt (complete_writer ser) (cfg\<lparr>ec_frames := F\<rparr>) cfg_path chs fs2) p"
  using agree
proof (induction chs arbitrary: fs1 fs2)
  case Nil
  then show ?case by simp
next
  case (Cons ch' chs)
  define img where "img = ec_image_file cfg"
  define r where "r = bioformats_to_ndarray_zstack_timeseries rt img (py_range (n_frames img))
                        (ec_roi cfg) ch'"
  show ?case
  proof (cases r)
    case (Inl e)
    then show ?thesis using Cons.prems
      by (simp add: r_def img_def Let_def)
  next
    case (Inr vol)
    from assembled_returns_4d[OF Inr[unfolded r_def]] obtain h w where
      sh: "nd_shape vol = [length (py_range (n_frames img)), length (zstacks img), h, w]" by blast
    define vols where "vols = map (\<lambda>i. \<lparr>nd_shape = [length (zstacks img), h, w],
         nd_data = block (nd_data vol) i (length (zstacks img) * (h * w))\<rparr>)
         [0..<length (py_range (n_frames img))]"
    have it: "iter_first_axis vol = Inr vols"
      unfolding vols_def by (rule iter_first_axis_4d[OF sh])
    have enc: "list_all (\<lambda>q. \<exists>vtkim. ndarray_to_vtk_image (snd q) (um_per_pix (ec_image_file cfg))
                                   (ec_um_per_z cfg) = Inr vtkim) (enumerate 0 vols)"
      unfolding vols_def by (rule enumerate_encodable[OF sh])
    have selq: "list_all (\<lambda>q. (int (fst q) \<in> set (ec_frames cfg) \<longleftrightarrow> int (fst q) \<in> set F)
                  \<or> vdb_file (export_dir cfg_path ch') ch' (fst q) \<noteq> p) (enumerate 0 vols)"
    proof -
      have "(int fr' \<in> set (ec_frames cfg) \<longleftrightarrow> int fr' \<in> set F)
              \<or> vdb_file (export_dir cfg_path ch') ch' fr' \<noteq> p" for fr'
      proof (cases "fr' = fr")
        case True
        then show ?thesis using sel by simp
      next
        case False
        then have "vdb_file (export_dir cfg_path ch') ch' fr' \<noteq> p"
          unfolding p using vdb_file_inj by blast
        then show ?thesis by simp
      qed
      then show ?thesis by (simp add: list_all_iff)
    qed
    define a1 where "a1 = frames_loop (complete_writer ser) cfg (export_dir cfg_path ch') ch'
                            (enumerate 0 vols) fs1"
    define a2 where "a2 = frames_loop (complete_writer ser) (cfg\<lparr>ec_frames := F\<rparr>)
                            (export_dir cfg_path ch') ch' (enumerate 0 vols) fs2"
    from frames_loop_agree[where ?fs1.0 = fs1 and ?fs2.0 = fs2 and p = p and ser = ser,
        OF enc Cons.prems selq]
    have fa: "snd a1 = None" "snd a2 = None" "fst a1 p = fst a2 p"
      by (simp_all add: a1_def a2_def)
    have c1: "channels_loop rt (complete_writer ser) cfg cfg_path (ch' # chs) fs1
              = channels_loop rt (complete_writer ser) cfg cfg_path chs (fst a1)"
      using Inr it fa(1)
      by (cases a1) (simp add: r_def img_def Let_def a1_def[symmetric])
    have c2: "channels_loop rt (complete_writer ser) (cfg\<lparr>ec_frames := F\<rparr>) cfg_path (ch' # chs) fs2
              = channels_loop rt (complete_writer ser) (cfg\<lparr>ec_frames := F\<rparr>) cfg_path chs (fst a2)"
      using Inr it fa(2)
      by (cases a2) (simp add: r_def img_def Let_def a2_def[symmetric])
    show ?thesis unfolding c1 c2 by (rule Cons.IH[of "fst a1" "fst a2", OF fa(3)])
  qed
qed

lemma frames_loop_at:
  assumes "list_all (\<lambda>q. \<exists>vtkim. ndarray_to_vtk_image (snd q) (um_per_pix (ec_image_file cfg))
                                   (ec_um_per_z cfg) = Inr vtkim) (enumerate k vols)"
  shows "fst (frames_loop (complete_writer ser) cfg (export_dir cfg_path ch) ch (enumerate k vols) fs)
           (vdb_file (export_dir cfg_path ch) ch fr)
         = (if k \<le> fr \<and> fr < k + length vols \<and> int fr \<in> set (ec_frames cfg)
            then Some (ser (projr (ndarray_to_vtk_image (vols ! (fr - k))
                                     (um_per_pix (ec_image_file cfg)) (ec_um_per_z cfg))))
            else fs (vdb_file (export_dir cfg_path ch) ch fr))"
  using assms
proof (induction vols arbitrary: k fs)
  case Nil
  then show ?case by auto
next
  case (Cons v vols)
  define p where "p = vdb_file (export_dir cfg_path ch) ch fr"
  from Cons.prems obtain vtkim where
    e: "ndarray_to_vtk_image v (um_per_pix (ec_image_file cfg)) (ec_um_per_z cfg) = Inr vtkim"
    by auto
  from Cons.prems have enc': "list_all (\<lambda>q. \<exists>vtkim. ndarray_to_vtk_image (snd q)
      (um_per_pix (ec_image_file cfg)) (ec_um_per_z cfg) = Inr vtkim) (enumerate (Suc k) vols)"
    by simp
  define g where "g = (if int k \<in> set (ec_frames cfg)
                       then fs(vdb_file (export_dir cfg_path ch) ch k \<mapsto> ser vtkim) else fs)"
  have step: "frames_loop (complete_writer ser) cfg (export_dir cfg_path ch) ch (enumerate k (v # vols)) fs
        = frames_loop (complete_writer ser) cfg (export_dir cfg_path ch) ch (enumerate (Suc k) vols) g"
    by (simp add: e save_complete g_def)
  have gp: "g p = (if fr = k \<and> int fr \<in> set (ec_frames cfg) then Some (ser vtkim) else fs p)"
  proof (cases "fr = k")
    case True
    then show ?thesis by (simp add: g_def p_def)
  next
    case False
    then have "vdb_file (export_dir cfg_path ch) ch k \<noteq> p"
      unfolding p_def using vdb_file_inj by blast
    with False show ?thesis by (simp add: g_def)
  qed
  have "fst (frames_loop (complete_writer ser) cfg (export_dir cfg_path ch) ch (enumerate (Suc k) vols) g) p
         = (if Suc k \<le> fr \<and> fr < Suc k + length vols \<and> int fr \<in> set (ec_frames cfg)
            then Some (ser (projr (ndarray_to_vtk_image (vols ! (fr - Suc k))
                                     (um_per_pix (ec_image_file cfg)) (ec_um_per_z cfg))))
            else g p)"
    unfolding p_def by (rule Cons.IH[OF enc'])
  also have "\<dots> = (if k \<le> fr \<and> fr < k + length (v # vols) \<and> int fr \<in> set (ec_frames cfg)
            then Some (ser (projr (ndarray_to_vtk_image ((v # vols) ! (fr - k))
                                     (um_per_pix (ec_image_file cfg)) (ec_um_per_z cfg))))
            else fs p)"
  proof (cases "fr = k")
    case True
    then show ?thesis by (simp add: gp e)
  next
    case False
    show ?thesis
    proof (cases "k \<le> fr")
      case True
      with False have "Suc k \<le> fr" by simp
      then have "(v # vols) ! (fr - k) = vols ! (fr - Suc k)"
        by (simp add: Suc_diff_le)
      with \<open>Suc k \<le> fr\<close> False show ?thesis by (simp add: gp)
    next
      case False
      then show ?thesis by (simp add: gp)
    qed
  qed
  finally show ?case unfolding step p_def .
qed

lemma frames_loop_other:
  assumes "list_all (\<lambda>q. \<exists>vtkim. ndarray_to_vtk_image (snd q) (um_per_pix (ec_image_file cfg))
                                   (ec_um_per_z cfg) = Inr vtkim) vs"
    and "ch' \<noteq> ch"
  shows "fst (frames_loop (complete_writer ser) cfg (export_dir cfg_path ch') ch' vs fs)
           (vdb_file (export_dir cfg_path ch) ch fr)
         = fs (vdb_file (export_dir cfg_path ch) ch fr)"
  using assms(1)
proof (induction vs arbitrary: fs)
  case Nil
  then show ?case by simp
next
  case (Cons q vs)
  obtain fr' v where q: "q = (fr', v)" by (cases q)
  from Cons.prems obtain vtkim where
    e: "ndarray_to_vtk_image v (um_per_pix (ec_image_file cfg)) (ec_um_per_z cfg) = Inr vtkim"
    by (auto simp: q)
  from Cons.prems have enc': "list_all (\<lambda>q. \<exists>vtkim. ndarray_to_vtk_image (snd q)
      (um_per_pix (ec_image_file cfg)) (ec_um_per_z cfg) = Inr vtkim) vs" by simp
  have ne: "vdb_file (export_dir cfg_path ch') ch' fr' \<noteq> vdb_file (export_dir cfg_path ch) ch fr"
    using assms(2) vdb_file_inj by blast
  show ?case
    using Cons.IH[OF enc'] ne by (simp add: q e save_complete)
qed

lemma frames_loop_no_error:
  assumes "list_all (\<lambda>q. \<exists>vtkim. ndarray_to_vtk_image (snd q) (um_per_pix (ec_image_file cfg))
                                   (ec_um_per_z cfg) = Inr vtkim) vs"
  shows "snd (frames_loop (complete_writer ser) cfg ep ch vs fs) = None"
  using assms
proof (induction vs arbitrary: fs)
  case Nil
  then show ?case by simp
next
  case (Cons q vs)
  obtain fr' v where q: "q = (fr', v)" by (cases q)
  from Cons.prems obtain vtkim where
    e: "ndarray_to_vtk_image v (um_per_pix (ec_image_file cfg)) (ec_um_per_z cfg) = Inr vtkim"
    by (auto simp: q)
  from Cons.prems have enc': "list_all (\<lambda>q. \<exists>vtkim. ndarray_to_vtk_image (snd q)
      (um_per_pix (ec_image_file cfg)) (ec_um_per_z cfg) = Inr vtkim) vs" by simp
  show ?case using Cons.IH[OF enc'] by (simp add: q e)
qed

lemma channels_loop_fail:
  assumes "bioformats_to_ndarray_zstack_timeseries rt (ec_image_file cfg)
             (py_range (n_frames (ec_image_file cfg))) (ec_roi cfg) ch' = Inl e"
  shows "channels_loop rt writer_update cfg cfg_path (ch' # chs) fs = (fs, Some e)"
  using assms by (simp add: Let_def)

lemma channels_loop_step:
  assumes "bioformats_to_ndarray_zstack_timeseries rt (ec_image_file cfg)
             (py_range (n_frames (ec_image_file cfg))) (ec_roi cfg) ch' = Inr vol"
  shows "\<exists>vols. iter_first_axis vol = Inr vols
           \<and> length vols = length (py_range (n_frames (ec_image_file cfg)))
           \<and> list_all (\<lambda>q. \<exists>vtkim. ndarray_to_vtk_image (snd q) (um_per_pix (ec_image_file cfg))
                                   (ec_um_per_z cfg) = Inr vtkim) (enumerate 0 vols)
           \<and> channels_loop rt (complete_writer ser) cfg cfg_path (ch' # chs) fs
             = channels_loop rt (complete_writer ser) cfg cfg_path chs
                 (fst (frames_loop (complete_writer ser) cfg (export_dir cfg_path ch') ch'
                         (enumerate 0 vols) fs))"
proof -
  define img where "img = ec_image_file cfg"
  from assembled_returns_4d[OF assms] obtain h w where
    sh: "nd_shape vol = [length (py_range (n_frames img)), length (zstacks img), h, w]"
    unfolding img_def by blast
  define vols where "vols = map (\<lambda>i. \<lparr>nd_shape = [length (zstacks img), h, w],
       nd_data = block (nd_data vol) i (length (zstacks img) * (h * w))\<rparr>)
       [0..<length (py_range (n_frames img))]"
  have it: "iter_first_axis vol = Inr vols"
    unfolding vols_def by (rule iter_first_axis_4d[OF sh])
  have len: "length vols = length (py_range (n_frames (ec_image_file cfg)))"
    by (simp add: vols_def img_def)
  have enc: "list_all (\<lambda>q. \<exists>vtkim. ndarray_to_vtk_image (snd q) (um_per_pix (ec_image_file cfg))
                                 (ec_um_per_z cfg) = Inr vtkim) (enumerate 0 vols)"
    unfolding vols_def by (rule enumerate_encodable[OF sh])
  define a where "a = frames_loop (complete_writer ser) cfg (export_dir cfg_path ch') ch'
                        (enumerate 0 vols) fs"
  have "snd a = None" unfolding a_def by (rule frames_loop_no_error[OF enc])
  then have "channels_loop rt (complete_writer ser) cfg cfg_path (ch' # chs) fs
             = channels_loop rt (complete_writer ser) cfg cfg_path chs (fst a)"
    using assms it by (cases a) (simp add: Let_def a_def[symmetric])
  with it len enc show ?thesis unfolding a_def by blast
qed

lemma channels_loop_other:
  assumes "ch \<notin> set chs"
  shows "fst (channels_loop rt (complete_writer ser) cfg cfg_path chs fs)
           (vdb_file (export_dir cfg_path ch) ch fr)
         = fs (vdb_file (export_dir cfg_path ch) ch fr)"
  using assms
proof (induction chs arbitrary: fs)
  case Nil
  then show ?case by simp
next
  case (Cons ch' chs)
  then have ne: "ch' \<noteq> ch" and notin: "ch \<notin> set chs" by auto
  show ?case
  proof (cases "bioformats_to_ndarray_zstack_timeseries rt (ec_image_file cfg)
             (py_range (n_frames (ec_image_file cfg))) (ec_roi cfg) ch'")
    case (Inl e)
    then show ?thesis by (simp add: channels_loop_fail)
  next
    case (Inr vol)
    from channels_loop_step[OF Inr, of ser cfg_path chs fs] obtain vols where
      enc: "list_all (\<lambda>q. \<exists>vtkim. ndarray_to_vtk_image (snd q) (um_per_pix (ec_image_file cfg))
                                   (ec_um_per_z cfg) = Inr vtkim) (enumerate 0 vols)"
      and st: "channels_loop rt (complete_writer ser) cfg cfg_path (ch' # chs) fs
             = channels_loop rt (complete_writer ser) cfg cfg_path chs
                 (fst (frames_loop (complete_writer ser) cfg (export_dir cfg_path ch') ch'
                         (enumerate 0 vols) fs))"
      by blast
    show ?thesis
      unfolding st by (simp only: Cons.IH[OF notin] frames_loop_other[OF enc ne])
  qed
qed

lemma channels_loop_unselected:
  assumes "int fr \<notin> set (ec_frames cfg)"
  shows "fst (channels_loop rt (complete_writer ser) cfg cfg_path chs fs)
           (vdb_file (export_dir cfg_path ch) ch fr)
         = fs (vdb_file (export_dir cfg_path ch) ch fr)"
proof (induction chs arbitrary: fs)
  case Nil
  then show ?case by simp
next
  case (Cons ch' chs)
  show ?case
  proof (cases "bioformats_to_ndarray_zstack_timeseries rt (ec_image_file cfg)
             (py_range (n_frames (ec_image_file cfg))) (ec_roi cfg) ch'")
    case (Inl e)
    then show ?thesis by (simp add: channels_loop_fail)
  next
    case (Inr vol)
    from channels_loop_step[OF Inr, of ser cfg_path chs fs] obtain vols where
      enc: "list_all (\<lambda>q. \<exists>vtkim. ndarray_to_vtk_image (snd q) (um_per_pix (ec_image_file cfg))
                                   (ec_um_per_z cfg) = Inr vtkim) (enumerate 0 vols)"
      and st: "channels_loop rt (complete_writer ser) cfg cfg_path (ch' # chs) fs
             = channels_loop rt (complete_writer ser) cfg cfg_path chs
                 (fst (frames_loop (complete_writer ser) cfg (export_dir cfg_path ch') ch'
                         (enumerate 0 vols) fs))"
      by blast
    have here: "fst (frames_loop (complete_writer ser) cfg (export_dir cfg_path ch') ch'
                       (enumerate 0 vols) fs) (vdb_file (export_dir cfg_path ch) ch fr)
                = fs (vdb_file (export_dir cfg_path ch) ch fr)"
    proof (cases "ch' = ch")
      case True
      show ?thesis
        unfolding True using frames_loop_at[OF enc, of ser cfg_path ch fs fr] assms
        by (simp add: True)
    next
      case False
      then show ?thesis by (rule frames_loop_other[OF enc])
    qed
    show ?thesis
      unfolding st by (simp only: Cons.IH here)
  qed
qed

lemma channels_loop_at:
  assumes "channels_loop rt (complete_writer ser) cfg cfg_path chs fs = (fs', None)"
    and "ch \<in> set chs"
    and "int fr \<in> set (ec_frames cfg)"
    and "bioformats_to_ndarray_zstack_timeseries rt (ec_image_file cfg)
             (py_range (n_frames (ec_image_file cfg))) (ec_roi cfg) ch = Inr vol"
    and "fr < length (py_range (n_frames (ec_image_file cfg)))"
  shows "\<exists>vols vtkim. iter_first_axis vol = Inr vols
           \<and> ndarray_to_vtk_image (vols ! fr) (um_per_pix (ec_image_file cfg)) (ec_um_per_z cfg)
               = Inr vtkim
           \<and> fs' (vdb_file (export_dir cfg_path ch) ch fr) = Some (ser vtkim)"
  using assms(1,2)
proof (induction chs arbitrary: fs)
  case Nil
  then show ?case by simp
next
  case (Cons ch' chs)
  define p where "p = vdb_file (export_dir cfg_path ch) ch fr"
  obtain vol' where r: "bioformats_to_ndarray_zstack_timeseries rt (ec_image_file cfg)
             (py_range (n_frames (ec_image_file cfg))) (ec_roi cfg) ch' = Inr vol'"
    using Cons.prems(1)
    by (cases "bioformats_to_ndarray_zstack_timeseries rt (ec_image_file cfg)
             (py_range (n_frames (ec_image_file cfg))) (ec_roi cfg) ch'")
       (simp_all add: channels_loop_fail)
  from channels_loop_step[OF r, of ser cfg_path chs fs] obtain vols where
    it: "iter_first_axis vol' = Inr vols"
    and len: "length vols = length (py_range (n_frames (ec_image_file cfg)))"
    and enc: "list_all (\<lambda>q. \<exists>vtkim. ndarray_to_vtk_image (snd q) (um_per_pix (ec_image_file cfg))
                                   (ec_um_per_z cfg) = Inr vtkim) (enumerate 0 vols)"
    and st: "channels_loop rt (complete_writer ser) cfg cfg_path (ch' # chs) fs
             = channels_loop rt (complete_writer ser) cfg cfg_path chs
                 (fst (frames_loop (complete_writer ser) cfg (export_dir cfg_path ch') ch'
                         (enumerate 0 vols) fs))"
    by blast
  define fs1 where "fs1 = fst (frames_loop (complete_writer ser) cfg (export_dir cfg_path ch') ch'
                         (enumerate 0 vols) fs)"
  from Cons.prems(1) st have rest: "channels_loop rt (complete_writer ser) cfg cfg_path chs fs1 = (fs', None)"
    by (simp add: fs1_def)
  show ?case
  proof (cases "ch \<in> set chs")
    case True
    from Cons.IH[OF rest True] show ?thesis .
  next
    case False
    with Cons.prems(2) have same: "ch' = ch" by simp
    with r assms(4) have vv: "vol' = vol" by simp
    from assms(5) len have lt: "fr < length vols" by simp
    then have "(fr, vols ! fr) \<in> set (enumerate 0 vols)"
      by (simp add: in_set_enumerate_eq)
    with enc obtain vtkim where
      e: "ndarray_to_vtk_image (vols ! fr) (um_per_pix (ec_image_file cfg)) (ec_um_per_z cfg)
            = Inr vtkim"
      by (auto simp: list_all_iff)
    have "fs1 p = Some (ser vtkim)"
      unfolding fs1_def p_def same
      using frames_loop_at[OF enc, of ser cfg_path ch fs fr] lt assms(3)
      by (simp add: e)
    moreover have "fs' p = fs1 p"
      using channels_loop_other[OF False, of rt ser cfg cfg_path fs1 fr] rest
      by (simp add: p_def)
    ultimately show ?thesis using it e vv by (auto simp: p_def)
  qed
qed

lemma channels_loop_total:
  assumes "list_all (\<lambda>ch. \<exists>vol. bioformats_to_ndarray_zstack_timeseries rt (ec_image_file cfg)
             (py_range (n_frames (ec_image_file cfg))) (ec_roi cfg) ch = Inr vol) chs"
  shows "snd (channels_loop rt (complete_writer ser) cfg cfg_path chs fs) = None"
  using assms
proof (induction chs arbitrary: fs)
  case Nil
  then show ?case by simp
next
  case (Cons ch' chs)
  then obtain vol where r: "bioformats_to_ndarray_zstack_timeseries rt (ec_image_file cfg)
             (py_range (n_frames (ec_image_file cfg))) (ec_roi cfg) ch' = Inr vol"
    and all: "list_all (\<lambda>ch. \<exists>vol. bioformats_to_ndarray_zstack_timeseries rt (ec_image_file cfg)
             (py_range (n_frames (ec_image_file cfg))) (ec_roi cfg) ch = Inr vol) chs"
    by auto
  from channels_loop_step[OF r, of ser cfg_path chs fs] obtain vols where
    st: "channels_loop rt (complete_writer ser) cfg cfg_path (ch' # chs) fs
             = channels_loop rt (complete_writer ser) cfg cfg_path chs
                 (fst (frames_loop (complete_writer ser) cfg (export_dir cfg_path ch') ch'
                         (enumerate 0 vols) fs))"
    by blast
  show ?case unfolding st by (rule Cons.IH[OF all])
qed

section \<open>The example source\<close>

lemma py_range_2: "py_range 2 = [0, 1]"
  by (simp add: py_range_def upt_rec)

lemma example_config_fields:
  "ec_image_file example_config = example_source" "ec_roi example_config = None"
  "ec_channels example_config = [0]" "ec_frames example_config = [1]"
  "ec_um_per_z example_config = 1 / 2"
  by (simp_all add: example_config_def)

lemma example_source_fields:
  "n_frames example_source = 2" "zstacks example_source = [0, 1, 2]"
  "height example_source = 4" "width example_source = 4" "um_per_pix example_source = 1 / 4"
  by (simp_all add: example_source_def)

lemma example_assembles:
  "\<exists>vol. bioformats_to_ndarray_zstack_timeseries example_runtime example_source [0, 1] None 0 = Inr vol"
proof -
  have crop: "crop_rect example_source None = (PyInt 4, PyInt 4, 0, 4, 0, 4)"
    by (simp add: crop_rect_def example_source_fields)
  have planes: "\<forall>t\<in>set [0, 1]. \<forall>z\<in>set (zstacks example_source).
       \<exists>ix p. ix_at example_source 0 z t = Inr ix \<and> image_plane example_source ix = Inr p
         \<and> nrows (getitem2 p 0 4 0 4) = nat 4 \<and> ncols (getitem2 p 0 4 0 4) = nat 4"
    by (simp add: example_source_def getitem2_def slice_bound_def)
  from assemble_total[OF planes crop, of example_runtime] show ?thesis
    by (auto simp: example_source_fields)
qed


section \<open>Claims about the normalisation\<close>

subsection \<open>Evaluations used below\<close>

lemma Min_Max_0_1_4: "Min (set [0, 1, 4 :: uint16]) = 0" "Max (set [0, 1, 4 :: uint16]) = 4"
  by (simp_all add: Min.set_eq_fold Max.set_eq_fold)

lemma quotient_1_of_4: "\<lfloor>fl64 (1 / fl64 (4 / 255))\<rfloor> = 63"
  by code_simp

lemma quotient_4_of_4: "\<lfloor>fl64 (4 / fl64 (4 / 255))\<rfloor> = 255"
  by code_simp

lemma normalize_0_1_4:
  "normalize_uint8 ub \<lparr>nd_shape = [1, 1, 1, 3], nd_data = [0, 1, 4 :: uint16]\<rparr>
     = Inr \<lparr>nd_shape = [1, 1, 1, 3], nd_data = [0, 63, 255]\<rparr>"
proof -
  have "LENGTH(16) \<le> (53::nat)" by simp
  from normalize_map[OF this, of "\<lparr>nd_shape = [1, 1, 1, 3], nd_data = [0, 1, 4 :: uint16]\<rparr>" ub]
  show ?thesis
    by (simp add: Min_Max_0_1_4 quotient_1_of_4 quotient_4_of_4 fl64_0)
qed

lemma spec_round_1_of_4: "spec_round_elem 0 4 1 = 64"
  by code_simp

lemma quotient_37_of_37: "\<lfloor>fl64 (37 / fl64 (37 / 255))\<rfloor> = 254"
  by code_simp

lemma Min_Max_0_37: "Min (set [0, 37 :: uint16]) = 0" "Max (set [0, 37 :: uint16]) = 37"
  by (simp_all add: Min.set_eq_fold Max.set_eq_fold)

text \<open>
  Claim C2 at a failing input: a volume with the samples 0, 1 and 4. The quotient of the
  sample 1 is \<open>1 / (4 / 255.0) = 63.75\<close>. Line 56 casts it with \<^verbatim>\<open>astype(np.uint8)\<close>, which
  truncates, and nothing rounds before the cast: the code gives 63 where rounding to the
  nearest integer, as the claim has it, gives 64. The same missing rounding gives the
  maximum 254 of claim C3.
\<close>

theorem normalize_not_rounded:
  "normalize_uint8 ub \<lparr>nd_shape = [1, 1, 1, 3], nd_data = [0, 1, 4 :: uint16]\<rparr>
     = Inr \<lparr>nd_shape = [1, 1, 1, 3], nd_data = [0, 63, 255]\<rparr>
   \<and> spec_round_elem 0 4 1 = 64"
  by (simp only: normalize_0_1_4 spec_round_1_of_4)

text \<open>
  Claim C3 at a failing input: a volume with minimum 0 and maximum 37. The double quotient
  \<open>37 / (37 / 255.0)\<close> is just below 255 and the cast truncates it, so the largest byte of
  the output is 254.
\<close>

theorem normalize_max_254:
  "normalize_uint8 ub \<lparr>nd_shape = [1, 1, 1, 2], nd_data = [0, 37 :: uint16]\<rparr>
     = Inr \<lparr>nd_shape = [1, 1, 1, 2], nd_data = [0, 254]\<rparr>"
proof -
  have "LENGTH(16) \<le> (53::nat)" by simp
  from normalize_map[OF this, of "\<lparr>nd_shape = [1, 1, 1, 2], nd_data = [0, 37 :: uint16]\<rparr>" ub]
  show ?thesis
    by (simp add: Min_Max_0_37 quotient_37_of_37 fl64_0)
qed

text \<open>
  Claim C4. On a volume whose samples are all equal the normalisation raises nothing:
  the divisor is \<open>0 / 255.0 = 0.0\<close>, and numpy warns at a division by zero and goes on. It
  returns an array of the shape of the input, and the input fixes every cell of it: each
  is \<open>0 / 0.0\<close>, not a number, converted to an unsigned byte. The witness takes the
  conversion to give 0, and the output is all zeros.
\<close>

theorem normalize_constant:
  fixes image_arr :: "'a::len word ndarray"
  assumes ne: "nd_data image_arr \<noteq> []"
    and const: "Min (set (nd_data image_arr)) = Max (set (nd_data image_arr))"
  shows "normalize_uint8 ub image_arr =
           Inr \<lparr>nd_shape = nd_shape image_arr,
                nd_data = replicate (length (nd_data image_arr)) (ub NaN)\<rparr>"
proof -
  define xs where "xs = nd_data image_arr"
  define lo where "lo = Min (set xs)"
  have fin: "finite (set xs)" by simp
  have all: "v = lo" if "v \<in> set xs" for v
  proof -
    have "lo \<le> v" unfolding lo_def by (rule Min_le[OF fin that])
    moreover have "v \<le> lo" using Max_ge[OF fin that] const by (simp add: lo_def xs_def)
    ultimately show ?thesis by simp
  qed
  have cell: "astype_uint8 ub (float_div (float_of_word (v - lo)) (fl64 (float_of_word (0 :: 'a word) / 255)))
        = ub NaN" if "v \<in> set xs" for v
    using all[OF that] by (simp add: float_of_word_def fl64_0 float_div_def astype_uint8_def)
  have "normalize_uint8 ub image_arr =
      Inr \<lparr>nd_shape = nd_shape image_arr,
           nd_data = map (\<lambda>v. astype_uint8 ub (float_div (float_of_word (v - lo))
                                  (fl64 (float_of_word (0 :: 'a word) / 255)))) xs\<rparr>"
    using ne const by (simp add: normalize_uint8_def np_min_eq np_ptp_eq Let_def xs_def lo_def)
  also have "map (\<lambda>v. astype_uint8 ub (float_div (float_of_word (v - lo))
                                  (fl64 (float_of_word (0 :: 'a word) / 255)))) xs
      = map (\<lambda>v. ub NaN) xs"
    by (rule map_cong[OF refl]) (rule cell)
  also have "\<dots> = replicate (length xs) (ub NaN)" by (rule map_replicate_const)
  finally show ?thesis by (simp only: xs_def)
qed

theorem normalize_constant_witness:
  "normalize_uint8 (\<lambda>_. 0) \<lparr>nd_shape = [1, 1, 1, 2], nd_data = [7, 7 :: uint16]\<rparr>
     = Inr \<lparr>nd_shape = [1, 1, 1, 2], nd_data = [0, 0]\<rparr>"
  using normalize_constant[of "\<lparr>nd_shape = [1, 1, 1, 2], nd_data = [7, 7 :: uint16]\<rparr>" "\<lambda>_. 0"]
  by (simp add: numeral_2_eq_2)

text \<open>
  Claim C5. Normalising an unsigned 8-bit volume whose minimum is 0 and whose maximum is 255
  gives the volume back: the divisor is \<open>255 / 255.0 = 1.0\<close> and every quotient is exact.
\<close>

theorem normalize_idempotent:
  fixes image_arr :: "uint8 ndarray"
  assumes ne: "nd_data image_arr \<noteq> []"
    and lo: "Min (set (nd_data image_arr)) = 0"
    and hi: "Max (set (nd_data image_arr)) = 255"
  shows "normalize_uint8 ub image_arr = Inr image_arr"
proof -
  have len: "LENGTH(8) \<le> (53::nat)" by simp
  have rng: "Min (set (nd_data image_arr)) \<noteq> Max (set (nd_data image_arr))"
    by (simp add: lo hi)
  have one: "fl64 1 = 1" using fl64_of_nat[of 1] by simp
  have cell: "word_of_int \<lfloor>fl64 (of_nat (unat v))\<rfloor> = v" for v :: uint8
  proof -
    have "unat v < 2 ^ 8" using unsigned_less[of v] by simp
    also have "(2::nat) ^ 8 \<le> 2 ^ 53" by (intro power_increasing) simp_all
    finally have "fl64 (of_nat (unat v)) = of_nat (unat v)" by (rule fl64_of_nat)
    then have "\<lfloor>fl64 (of_nat (unat v))\<rfloor> = int (unat v)"
      by (simp only: floor_of_nat)
    then show ?thesis by simp
  qed
  have "normalize_uint8 ub image_arr =
      Inr \<lparr>nd_shape = nd_shape image_arr,
           nd_data = map (\<lambda>v. word_of_int \<lfloor>fl64 (of_nat (unat v))\<rfloor>) (nd_data image_arr)\<rparr>"
    using normalize_map[OF len ne rng, of ub] by (simp add: lo hi one)
  also have "map (\<lambda>v. word_of_int \<lfloor>fl64 (of_nat (unat v))\<rfloor>) (nd_data image_arr)
           = nd_data image_arr"
    by (simp only: cell list.map_ident)
  finally show ?thesis by simp
qed

theorem normalize_idempotent_witness:
  "normalize_uint8 (\<lambda>_. 0) \<lparr>nd_shape = [1, 1, 1, 3], nd_data = [0, 100, 255 :: uint8]\<rparr>
     = Inr \<lparr>nd_shape = [1, 1, 1, 3], nd_data = [0, 100, 255]\<rparr>"
  using normalize_idempotent[of "\<lparr>nd_shape = [1, 1, 1, 3], nd_data = [0, 100, 255 :: uint8]\<rparr>" "\<lambda>_. 0"]
  by (simp add: Min.set_eq_fold Max.set_eq_fold)

section \<open>Claims about the assembly\<close>

text \<open>
  The shape with integer bounds. Let the source serve the frames of the channel, with at
  least one frame and one z position. Without a ROI and with a positive height and width,
  the assembler returns a four-dimensional array whose last two dimensions are the height
  and width of the source. With a ROI whose four bounds are integers, whose derived height
  \<open>\<bar>top - bottom\<bar>\<close> and width \<open>\<bar>right - left\<bar>\<close> are positive and whose rectangle
  starting at \<open>(top, left)\<close> lies inside the plane, it returns an array whose last two
  dimensions are that height and width. Whenever it returns an array at all, with integer
  bounds or without a ROI, the last two dimensions are those (\<open>integer_roi_returns_shape\<close>,
  \<open>no_roi_returns_shape\<close>).
\<close>

lemma no_roi_returns_shape:
  assumes "bioformats_to_ndarray_zstack_timeseries rt img frames None c = Inr vol"
  shows "nd_shape vol = [length frames, length (zstacks img), nat (height img), nat (width img)]"
proof -
  have "crop_rect img None = (PyInt (width img), PyInt (height img), 0, height img, 0, width img)"
    by (simp add: crop_rect_def)
  from assembled_returns_shape[OF assms this] show ?thesis by simp
qed

lemma assembled_shape:
  assumes srv: "serves img frames c" and ne: "frames \<noteq> []" "zstacks img \<noteq> []"
  shows "(0 < height img \<and> 0 < width img \<longrightarrow>
            (\<exists>vol. bioformats_to_ndarray_zstack_timeseries rt img frames None c = Inr vol
                  \<and> nd_shape vol = [length frames, length (zstacks img),
                                     nat (height img), nat (width img)]
                  \<and> wf_ndarray vol))
       \<and> (0 < \<bar>t - b\<bar> \<and> 0 < \<bar>r - l\<bar> \<and> 0 \<le> l \<and> l + \<bar>r - l\<bar> \<le> width img
            \<and> 0 \<le> t \<and> t + \<bar>t - b\<bar> \<le> height img \<longrightarrow>
            (\<exists>vol. bioformats_to_ndarray_zstack_timeseries rt img frames
                      (Some \<lparr>roi_left = PyInt l, roi_right = PyInt r, roi_top = PyInt t,
                             roi_bottom = PyInt b, t_position = tp\<rparr>) c = Inr vol
                  \<and> nd_shape vol = [length frames, length (zstacks img),
                                     nat \<bar>t - b\<bar>, nat \<bar>r - l\<bar>]
                  \<and> wf_ndarray vol))"
proof (intro conjI impI)
  assume pos: "0 < height img \<and> 0 < width img"
  have crop: "crop_rect img None = (PyInt (width img), PyInt (height img), 0, height img, 0, width img)"
    by (simp add: crop_rect_def)
  have planes: "\<forall>t\<in>set frames. \<forall>z\<in>set (zstacks img).
       \<exists>ix p. ix_at img c z t = Inr ix \<and> image_plane img ix = Inr p
         \<and> nrows (getitem2 p 0 (height img) 0 (width img)) = nat (height img)
         \<and> ncols (getitem2 p 0 (height img) 0 (width img)) = nat (width img)"
  proof (intro ballI)
    fix t z assume "t \<in> set frames" "z \<in> set (zstacks img)"
    from serves_plane[OF srv this] obtain ix p where
      p: "ix_at img c z t = Inr ix" "image_plane img ix = Inr p"
         "nrows p = nat (height img)" "ncols p = nat (width img)" by blast
    have "nrows (getitem2 p 0 (height img) 0 (width img)) = nat (height img - 0)"
      "ncols (getitem2 p 0 (height img) 0 (width img)) = nat (width img - 0)"
      using pos p(3,4) by (intro getitem2_shape; simp)+
    with p show "\<exists>ix p. ix_at img c z t = Inr ix \<and> image_plane img ix = Inr p
         \<and> nrows (getitem2 p 0 (height img) 0 (width img)) = nat (height img)
         \<and> ncols (getitem2 p 0 (height img) 0 (width img)) = nat (width img)" by simp
  qed
  from assemble_total[OF planes crop _ _ ne, of rt] pos
  show "\<exists>vol. bioformats_to_ndarray_zstack_timeseries rt img frames None c = Inr vol
          \<and> nd_shape vol = [length frames, length (zstacks img), nat (height img), nat (width img)]
          \<and> wf_ndarray vol" by simp
next
  assume a: "0 < \<bar>t - b\<bar> \<and> 0 < \<bar>r - l\<bar> \<and> 0 \<le> l \<and> l + \<bar>r - l\<bar> \<le> width img
            \<and> 0 \<le> t \<and> t + \<bar>t - b\<bar> \<le> height img"
  define h where "h = \<bar>t - b\<bar>"
  define w where "w = \<bar>r - l\<bar>"
  define roi where "roi = \<lparr>roi_left = PyInt l, roi_right = PyInt r, roi_top = PyInt t,
                             roi_bottom = PyInt b, t_position = tp\<rparr>"
  have crop: "crop_rect img (Some roi) = (PyInt w, PyInt h, t, t + h, l, l + w)"
    by (simp add: crop_rect_def roi_def h_def w_def Let_def)
  have planes: "\<forall>t'\<in>set frames. \<forall>z\<in>set (zstacks img).
       \<exists>ix p. ix_at img c z t' = Inr ix \<and> image_plane img ix = Inr p
         \<and> nrows (getitem2 p t (t + h) l (l + w)) = nat h
         \<and> ncols (getitem2 p t (t + h) l (l + w)) = nat w"
  proof (intro ballI)
    fix t' z assume "t' \<in> set frames" "z \<in> set (zstacks img)"
    from serves_plane[OF srv this] obtain ix p where
      p: "ix_at img c z t' = Inr ix" "image_plane img ix = Inr p"
         "nrows p = nat (height img)" "ncols p = nat (width img)" by blast
    have "nrows (getitem2 p t (t + h) l (l + w)) = nat (t + h - t)"
      "ncols (getitem2 p t (t + h) l (l + w)) = nat (l + w - l)"
      using a p(3,4) by (intro getitem2_shape; simp add: h_def w_def)+
    with p show "\<exists>ix p. ix_at img c z t' = Inr ix \<and> image_plane img ix = Inr p
         \<and> nrows (getitem2 p t (t + h) l (l + w)) = nat h
         \<and> ncols (getitem2 p t (t + h) l (l + w)) = nat w" by simp
  qed
  from assemble_total[OF planes crop _ _ ne, of rt] a
  show "\<exists>vol. bioformats_to_ndarray_zstack_timeseries rt img frames
                      (Some \<lparr>roi_left = PyInt l, roi_right = PyInt r, roi_top = PyInt t,
                             roi_bottom = PyInt b, t_position = tp\<rparr>) c = Inr vol
                  \<and> nd_shape vol = [length frames, length (zstacks img),
                                     nat \<bar>t - b\<bar>, nat \<bar>r - l\<bar>]
                  \<and> wf_ndarray vol"
    by (simp add: h_def w_def roi_def)
qed


text \<open>
  Claim C1 at a failing input: a ROI whose bounds are the floats 1.0, 3.0, 1.0 and 3.0, of
  derived width and height 2.0, on the example source of planes of 4 by 4. Lines 30 to 33
  convert the bounds of the slice with \<^verbatim>\<open>int\<close>, but lines 28 and 29 leave the width and the
  height floats and line 43 passes them to \<^verbatim>\<open>np.empty\<close>, which refuses a float in a shape:
  the assembler raises \<^verbatim>\<open>TypeError\<close> and returns no array, where the claim has an array whose
  last two dimensions are 2 and 2. With the same bounds as integers it returns that array
  (\<open>assembled_shape\<close>).
\<close>

theorem assembler_float_roi:
  "bioformats_to_ndarray_zstack_timeseries example_runtime example_source [0, 1]
     (Some \<lparr>roi_left = PyFloat 1, roi_right = PyFloat 3, roi_top = PyFloat 1,
            roi_bottom = PyFloat 3, t_position = 0\<rparr>) 0 = Inl TypeError"
  by (rule float_roi_raises) simp

section \<open>Claims about the encoder and the writer\<close>

text \<open>
  Claim C7. For an unsigned 8-bit array of shape \<open>(z, row, col)\<close> the encoder returns an
  image whose data extent and whole extent are \<open>(1, col, 1, row, 1, z)\<close>, whose spacing is
  \<open>(um_per_pix, um_per_pix, um_per_z)\<close>, with one scalar component named density of type
  unsigned char, and whose buffer is the array's cells in C order, \<open>z * row * col\<close> bytes.
\<close>

theorem vtk_image_geometry:
  assumes "nd_shape data = [z, row, col]" and "wf_ndarray data"
  shows "\<exists>vtk_image. ndarray_to_vtk_image data um_pix um_z = Inr vtk_image
           \<and> data_extent vtk_image = (1, int col, 1, int row, 1, int z)
           \<and> whole_extent vtk_image = (1, int col, 1, int row, 1, int z)
           \<and> data_spacing vtk_image = (um_pix, um_pix, um_z)
           \<and> number_of_scalar_components vtk_image = 1
           \<and> scalar_array_name vtk_image = ''density''
           \<and> data_scalar_type vtk_image = VTK_UNSIGNED_CHAR
           \<and> import_void_pointer vtk_image = nd_data data
           \<and> length (import_void_pointer vtk_image) = z * row * col"
  using assms by (simp add: ndarray_to_vtk_image_def tobytes_def wf_ndarray_def Let_def)

theorem vtk_image_geometry_witness:
  "\<exists>vtk_image. ndarray_to_vtk_image \<lparr>nd_shape = [1, 2, 3], nd_data = [10, 11, 12, 20, 21, 22]\<rparr>
                   (1 / 4) (1 / 2) = Inr vtk_image
           \<and> data_extent vtk_image = (1, 3, 1, 2, 1, 1)
           \<and> whole_extent vtk_image = (1, 3, 1, 2, 1, 1)
           \<and> data_spacing vtk_image = (1 / 4, 1 / 4, 1 / 2)
           \<and> number_of_scalar_components vtk_image = 1
           \<and> scalar_array_name vtk_image = ''density''
           \<and> data_scalar_type vtk_image = VTK_UNSIGNED_CHAR
           \<and> import_void_pointer vtk_image = [10, 11, 12, 20, 21, 22]
           \<and> length (import_void_pointer vtk_image) = 6"
  using vtk_image_geometry[of "\<lparr>nd_shape = [1, 2, 3], nd_data = [10, 11, 12, 20, 21, 22]\<rparr>" 1 2 3
      "1 / 4" "1 / 2"]
  by (simp add: wf_ndarray_def)

text \<open>
  Claim C8. The writer removes a file that exists at the destination before the VDB writer
  runs. So with any VDB writer that creates a file where there is none, two calls at the
  same destination leave one file there, holding the second image, and leave every other
  file as it was. The witness uses a VDB writer that would append to an existing file.
\<close>

theorem save_twice:
  assumes "creates_files writer_update ser"
  shows "save_vtk_image_to_disk writer_update second filename
           (save_vtk_image_to_disk writer_update first filename fs)
         = fs(filename \<mapsto> ser second)"
  by (simp add: creates_files_save[OF assms])

theorem save_twice_witness:
  "save_vtk_image_to_disk (appending_writer import_void_pointer)
     \<lparr>import_void_pointer = [3, 4], data_scalar_type = VTK_UNSIGNED_CHAR,
      number_of_scalar_components = 1, scalar_array_name = ''density'',
      data_extent = (1, 2, 1, 1, 1, 1), whole_extent = (1, 2, 1, 1, 1, 1),
      data_spacing = (1, 1, 1)\<rparr> [''out.vdb'']
     (save_vtk_image_to_disk (appending_writer import_void_pointer)
        \<lparr>import_void_pointer = [1, 2], data_scalar_type = VTK_UNSIGNED_CHAR,
         number_of_scalar_components = 1, scalar_array_name = ''density'',
         data_extent = (1, 2, 1, 1, 1, 1), whole_extent = (1, 2, 1, 1, 1, 1),
         data_spacing = (1, 1, 1)\<rparr> [''out.vdb''] Map.empty)
   = [[''out.vdb''] \<mapsto> [3, 4]]"
  using save_twice[OF creates_files_appending, of import_void_pointer
      "\<lparr>import_void_pointer = [3, 4], data_scalar_type = VTK_UNSIGNED_CHAR,
      number_of_scalar_components = 1, scalar_array_name = ''density'',
      data_extent = (1, 2, 1, 1, 1, 1), whole_extent = (1, 2, 1, 1, 1, 1),
      data_spacing = (1, 1, 1)\<rparr>" "[''out.vdb'']"
      "\<lparr>import_void_pointer = [1, 2], data_scalar_type = VTK_UNSIGNED_CHAR,
         number_of_scalar_components = 1, scalar_array_name = ''density'',
         data_extent = (1, 2, 1, 1, 1, 1), whole_extent = (1, 2, 1, 1, 1, 1),
         data_spacing = (1, 1, 1)\<rparr>" Map.empty]
  by simp

section \<open>Claims about the configuration reader\<close>

text \<open>
  Claim C6 at a failing input: a project file whose option ROI is the absolute path
  \<^verbatim>\<open>/data/cell.roi\<close>, with frame 1, where the ROI file exists and has the time position 0.
  \<^verbatim>\<open>read_config\<close> returns a configuration without ROI, and its frames are those of the
  option, not the time position of the ROI: the lines that load the ROI are inside the
  branch of the relative path. With the relative path \<^verbatim>\<open>cell.roi\<close> it returns the ROI and
  the frames \<open>[0]\<close> (lemma \<open>read_config_relative_example\<close>).
\<close>

theorem read_config_absolute_roi:
  "map_sum id (\<lambda>cfg. (ec_roi cfg, ec_frames cfg))
     (read_config
        (example_env [(''series'', ''0''), (''frame'', ''1''), (''channel'', ''0''),
                      (''image'', ''img.tif''), (''ROI'', ''/data/cell.roi'')])
        [''example.cfg''])
   = Inr (None, [1])"
  by (simp add: read_config_def example_env_def process_roi_path_def Path_absolute_roi
      get_option_def optionxform_names is_absolute_def is_root_def selection_def
      int_of_setting_def example_source_def py_range_def)


section \<open>Claims about the export driver\<close>

text \<open>
  Claim C10. The driver assembles and normalises each channel over all the frames of the
  source, \<^verbatim>\<open>range(n_frames)\<close>, whatever frames the configuration selects; the selection only
  decides which sub-volumes are written. With a VDB writer that completes: for a frame
  that two selections both contain, the file of that frame and any channel is the same
  after the driver has run with either selection, other things equal. When the run
  ends without an exception, the file of a selected frame of a configured channel holds
  the image encoded from that frame's sub-volume of the volume assembled over all frames.
  And the file of a frame that is not selected is not written: it is after the run what it
  was before.
\<close>

theorem frame_selection_only_filters:
  assumes sel: "int fr \<in> set (ec_frames cfg)" and sel': "int fr \<in> set frames'"
  shows "fst (export_config rt (complete_writer ser) cfg_path (cfg\<lparr>ec_frames := frames'\<rparr>) fs)
           (vdb_file (export_dir cfg_path ch) ch fr)
         = fst (export_config rt (complete_writer ser) cfg_path cfg fs)
             (vdb_file (export_dir cfg_path ch) ch fr)
       \<and> (\<forall>fs' vol.
             export_config rt (complete_writer ser) cfg_path cfg fs = (fs', None)
             \<and> ch \<in> set (ec_channels cfg)
             \<and> bioformats_to_ndarray_zstack_timeseries rt (ec_image_file cfg)
                 (py_range (n_frames (ec_image_file cfg))) (ec_roi cfg) ch = Inr vol
             \<and> fr < length (py_range (n_frames (ec_image_file cfg)))
             \<longrightarrow> (\<exists>vols vtkim. iter_first_axis vol = Inr vols
                    \<and> ndarray_to_vtk_image (vols ! fr) (um_per_pix (ec_image_file cfg))
                        (ec_um_per_z cfg) = Inr vtkim
                    \<and> fs' (vdb_file (export_dir cfg_path ch) ch fr) = Some (ser vtkim)))
       \<and> (\<forall>fr'. int fr' \<notin> set (ec_frames cfg) \<longrightarrow>
             fst (export_config rt (complete_writer ser) cfg_path cfg fs)
               (vdb_file (export_dir cfg_path ch) ch fr')
             = fs (vdb_file (export_dir cfg_path ch) ch fr'))"
proof (intro conjI allI impI)
  have "fs (vdb_file (export_dir cfg_path ch) ch fr) = fs (vdb_file (export_dir cfg_path ch) ch fr)" ..
  from channels_loop_agree[where ?fs1.0 = fs and ?fs2.0 = fs and rt = rt and ser = ser
      and chs = "ec_channels cfg", OF this refl sel sel']
  show "fst (export_config rt (complete_writer ser) cfg_path (cfg\<lparr>ec_frames := frames'\<rparr>) fs)
           (vdb_file (export_dir cfg_path ch) ch fr)
         = fst (export_config rt (complete_writer ser) cfg_path cfg fs)
             (vdb_file (export_dir cfg_path ch) ch fr)"
    by (simp add: export_config_def)
next
  fix fs' vol
  assume a: "export_config rt (complete_writer ser) cfg_path cfg fs = (fs', None)
             \<and> ch \<in> set (ec_channels cfg)
             \<and> bioformats_to_ndarray_zstack_timeseries rt (ec_image_file cfg)
                 (py_range (n_frames (ec_image_file cfg))) (ec_roi cfg) ch = Inr vol
             \<and> fr < length (py_range (n_frames (ec_image_file cfg)))"
  then have run: "channels_loop rt (complete_writer ser) cfg cfg_path (ec_channels cfg) fs = (fs', None)"
    by (simp add: export_config_def)
  from a channels_loop_at[OF run _ sel, of ch vol]
  show "\<exists>vols vtkim. iter_first_axis vol = Inr vols
                    \<and> ndarray_to_vtk_image (vols ! fr) (um_per_pix (ec_image_file cfg))
                        (ec_um_per_z cfg) = Inr vtkim
                    \<and> fs' (vdb_file (export_dir cfg_path ch) ch fr) = Some (ser vtkim)"
    by blast
next
  fix fr'
  assume "int fr' \<notin> set (ec_frames cfg)"
  then show "fst (export_config rt (complete_writer ser) cfg_path cfg fs)
               (vdb_file (export_dir cfg_path ch) ch fr')
             = fs (vdb_file (export_dir cfg_path ch) ch fr')"
    unfolding export_config_def by (rule channels_loop_unselected)
qed


theorem frame_selection_only_filters_witness:
  "fst (export_config example_runtime (complete_writer import_void_pointer) [''example.cfg'']
          (example_config\<lparr>ec_frames := [0, 1]\<rparr>) Map.empty)
     (vdb_file (export_dir [''example.cfg''] 0) 0 1)
   = fst (export_config example_runtime (complete_writer import_void_pointer) [''example.cfg'']
            example_config Map.empty)
       (vdb_file (export_dir [''example.cfg''] 0) 0 1)
   \<and> (\<exists>fs' vol vols vtkim.
         export_config example_runtime (complete_writer import_void_pointer) [''example.cfg'']
           example_config Map.empty = (fs', None)
         \<and> bioformats_to_ndarray_zstack_timeseries example_runtime example_source [0, 1] None 0
             = Inr vol
         \<and> iter_first_axis vol = Inr vols
         \<and> ndarray_to_vtk_image (vols ! 1) (1 / 4) (1 / 2) = Inr vtkim
         \<and> fs' (vdb_file (export_dir [''example.cfg''] 0) 0 1) = Some (import_void_pointer vtkim))
   \<and> fst (export_config example_runtime (complete_writer import_void_pointer) [''example.cfg'']
            example_config Map.empty)
       (vdb_file (export_dir [''example.cfg''] 0) 0 0)
     = None"
proof -
  from example_assembles obtain vol where
    vol: "bioformats_to_ndarray_zstack_timeseries example_runtime example_source [0, 1] None 0 = Inr vol"
    ..
  have "snd (channels_loop example_runtime (complete_writer import_void_pointer) example_config
               [''example.cfg''] [0] Map.empty) = None"
    by (rule channels_loop_total)
       (simp add: example_config_fields example_source_fields py_range_2 vol)
  then obtain fs' where
    run: "export_config example_runtime (complete_writer import_void_pointer) [''example.cfg'']
            example_config Map.empty = (fs', None)"
    by (cases "channels_loop example_runtime (complete_writer import_void_pointer) example_config
               [''example.cfg''] [0] Map.empty")
       (simp add: export_config_def example_config_fields)
  from frame_selection_only_filters[of 1 example_config "[0, 1]" example_runtime
      import_void_pointer "[''example.cfg'']" Map.empty 0]
  show ?thesis
    using run vol
    by (simp add: example_config_fields example_source_fields py_range_2)
qed

end
